theory Spec2Isabelle
  imports Complex_Main "HOL-Library.Word"
begin

section \<open>Text-quality scoring engine of the LLM Lab Console\<close>

text \<open>
  A shallow embedding of \<^verbatim>\<open>src/app/lib/metrics.ts\<close> and of its second copy in the
  repository. A JavaScript string is a sequence of 16-bit code units, so a string is a list of
  \<open>16 word\<close>. A JavaScript number is an IEEE double: a finite value, an infinity or NaN,
  with every arithmetic result rounded to the nearest double. The objects bound at the top
  level of the module are its state, which every call receives and hands back.
\<close>

subsection \<open>Strings and character classes\<close>

type_synonym jschar = "16 word"
type_synonym jsstring = "jschar list"

text \<open>An ASCII literal as a JavaScript string.\<close>

definition js :: "string \<Rightarrow> jsstring" where
  "js s = map of_char s"

definition LF :: jschar where "LF = 0x0A"
definition CR :: jschar where "CR = 0x0D"
definition SP :: jschar where "SP = 0x20"

text \<open>
  The class \<^verbatim>\<open>\s\<close> of a regular expression, which is also what \<^verbatim>\<open>trim\<close> removes:
  the white space and the line terminators of ECMAScript.
\<close>

definition isSpace :: "jschar \<Rightarrow> bool" where
  "isSpace c = (c = 0x09 \<or> c = 0x0A \<or> c = 0x0B \<or> c = 0x0C \<or> c = 0x0D \<or> c = 0x20
     \<or> c = 0xA0 \<or> c = 0x1680 \<or> (0x2000 \<le> c \<and> c \<le> 0x200A) \<or> c = 0x2028 \<or> c = 0x2029
     \<or> c = 0x202F \<or> c = 0x205F \<or> c = 0x3000 \<or> c = 0xFEFF)"

text \<open>\<^verbatim>\<open>\d\<close>, \<^verbatim>\<open>[a-z]\<close>, \<^verbatim>\<open>[A-Z]\<close> and \<^verbatim>\<open>\w\<close> (without the unicode flag).\<close>

definition isDigit :: "jschar \<Rightarrow> bool" where
  "isDigit c = (0x30 \<le> c \<and> c \<le> 0x39)"

definition isLowerAZ :: "jschar \<Rightarrow> bool" where
  "isLowerAZ c = (0x61 \<le> c \<and> c \<le> 0x7A)"

definition isUpperAZ :: "jschar \<Rightarrow> bool" where
  "isUpperAZ c = (0x41 \<le> c \<and> c \<le> 0x5A)"

definition isWordChar :: "jschar \<Rightarrow> bool" where
  "isWordChar c = (isLowerAZ c \<or> isUpperAZ c \<or> isDigit c \<or> c = 0x5F)"

text \<open>The bullet markers \<^verbatim>\<open>[-*\<bullet>]\<close>: hyphen, asterisk and U+2022.\<close>

definition isBullet :: "jschar \<Rightarrow> bool" where
  "isBullet c = (c = 0x2D \<or> c = 0x2A \<or> c = 0x2022)"

definition nonEmpty :: "jsstring \<Rightarrow> bool" where
  "nonEmpty s = (s \<noteq> [])"

definition trim :: "jsstring \<Rightarrow> jsstring" where
  "trim s = rev (dropWhile isSpace (rev (dropWhile isSpace s)))"

text \<open>
  \<^verbatim>\<open>String.prototype.toLowerCase\<close> is a function of the platform. It is modelled on the
  code units whose image contains an ASCII unit: the letters A to Z, the Kelvin sign U+212A
  (which becomes k) and U+0130 (which becomes i followed by U+0307). Every other unit is kept
  as it is: its image lies outside ASCII, and each use in this module blanks or deletes the
  units outside ASCII right after lowering.
\<close>

definition lowerUnit :: "jschar \<Rightarrow> jsstring" where
  "lowerUnit c =
     (if isUpperAZ c then [c + 0x20]
      else if c = 0x212A then [0x6B]
      else if c = 0x0130 then [0x69, 0x0307]
      else [c])"

definition toLowerCase :: "jsstring \<Rightarrow> jsstring" where
  "toLowerCase s = concat (map lowerUnit s)"

definition normalizeText :: "jsstring \<Rightarrow> jsstring" where
  "normalizeText text = toLowerCase text"

text \<open>\<^verbatim>\<open>xs.join(sep)\<close>.\<close>

fun joinWith :: "jsstring \<Rightarrow> jsstring list \<Rightarrow> jsstring" where
  "joinWith sep [] = []"
| "joinWith sep [x] = x"
| "joinWith sep (x # y # ys) = x @ sep @ joinWith sep (y # ys)"

subsection \<open>Tokenizer\<close>

text \<open>
  \<^verbatim>\<open>.replace(/[^a-z0-9\s-]/g, " ")\<close>: a unit outside the class becomes a space.
\<close>

definition blankOther :: "jschar \<Rightarrow> jschar" where
  "blankOther c = (if isLowerAZ c \<or> isDigit c \<or> isSpace c \<or> c = 0x2D then c else SP)"

text \<open>
  \<^verbatim>\<open>.split(/\s+/)\<close>: the pieces between the maximal runs of white space. The first
  argument is the piece read so far. A separator at either end leaves an empty piece there,
  and the empty string gives one empty piece.
\<close>

function splitSpaces :: "jsstring \<Rightarrow> jsstring \<Rightarrow> jsstring list" where
  "splitSpaces acc [] = [acc]"
| "splitSpaces acc (c # cs) =
     (if isSpace c then acc # splitSpaces [] (dropWhile isSpace cs)
      else splitSpaces (acc @ [c]) cs)"
  by pat_completeness auto
termination
  by (relation "measure (\<lambda>(acc, s). length s)")
     (auto simp: less_Suc_eq_le length_dropWhile_le)

definition tokenizeWords :: "jsstring \<Rightarrow> jsstring list" where
  "tokenizeWords text =
     filter nonEmpty (splitSpaces [] (map blankOther (normalizeText text)))"

text \<open>
  \<^verbatim>\<open>.split(/(?<=[.!?])\s+|\n+/)\<close>. The flag says whether the unit before the position
  is one of \<^verbatim>\<open>.!?\<close>. At each position the first alternative is tried first: after a
  terminator a run of white space separates; otherwise a run of line feeds does. A separator
  ends in white space, so the flag is off after it.
\<close>

definition isTerminator :: "jschar \<Rightarrow> bool" where
  "isTerminator c = (c = 0x2E \<or> c = 0x21 \<or> c = 0x3F)"

function sentenceSplit :: "bool \<Rightarrow> jsstring \<Rightarrow> jsstring \<Rightarrow> jsstring list" where
  "sentenceSplit afterTerm acc [] = [acc]"
| "sentenceSplit afterTerm acc (c # cs) =
     (if afterTerm \<and> isSpace c then acc # sentenceSplit False [] (dropWhile isSpace cs)
      else if c = LF then acc # sentenceSplit False [] (dropWhile (\<lambda>d. d = LF) cs)
      else sentenceSplit (isTerminator c) (acc @ [c]) cs)"
  by pat_completeness auto
termination
  by (relation "measure (\<lambda>(f, acc, s). length s)")
     (auto simp: less_Suc_eq_le length_dropWhile_le)

definition sentences :: "jsstring \<Rightarrow> jsstring list" where
  "sentences text =
     (let s = filter nonEmpty (map trim (sentenceSplit False [] text))
      in if s \<noteq> [] then s else filter nonEmpty [trim text])"

text \<open>
  \<^verbatim>\<open>.split(/\n\s*\n/)\<close>: a line feed, white space, and a line feed. The white space is
  greedy and then gives units back, so the separator runs from a line feed to the last line
  feed of the white space that follows it.
\<close>

definition afterLastLF :: "jsstring \<Rightarrow> jsstring" where
  "afterLastLF w = rev (takeWhile (\<lambda>d. d \<noteq> LF) (rev w))"

function splitBlankLines :: "jsstring \<Rightarrow> jsstring \<Rightarrow> jsstring list" where
  "splitBlankLines acc [] = [acc]"
| "splitBlankLines acc (c # cs) =
     (if c = LF \<and> LF \<in> set (takeWhile isSpace cs)
      then acc # splitBlankLines [] (afterLastLF (takeWhile isSpace cs) @ dropWhile isSpace cs)
      else splitBlankLines (acc @ [c]) cs)"
  by pat_completeness auto
termination
proof -
  have shorter: "length (afterLastLF (takeWhile isSpace cs) @ dropWhile isSpace cs) \<le> length cs"
    for cs
  proof -
    have "length (afterLastLF (takeWhile isSpace cs)) \<le> length (takeWhile isSpace cs)"
      unfolding afterLastLF_def by (metis length_rev length_takeWhile_le)
    moreover have "length (takeWhile isSpace cs) + length (dropWhile isSpace cs) = length cs"
      by (metis length_append takeWhile_dropWhile_id)
    ultimately show ?thesis by simp
  qed
  show ?thesis
    by (relation "measure (\<lambda>(acc, s). length s)")
       (auto simp: less_Suc_eq_le shorter simp del: length_append)
qed

subsection \<open>Numbers\<close>

text \<open>
  A number is a finite value, one of the two infinities, or NaN. The two zeros are one value
  here: the module never divides by a zero, the one place where they differ.
\<close>

datatype jsnum = Fin real | PInf | NInf | NaN

text \<open>
  Rounding to the nearest double, ties to the even significand: 53 binary digits, the
  exponent of the leading digit between -1022 and 1023, smaller values on the grid of
  \<open>2^-1074\<close>, and an infinity from \<open>2^1024\<close> on.
\<close>

definition pow2 :: "int \<Rightarrow> real" where
  "pow2 e = 2 powr (of_int e)"

definition roundEven :: "real \<Rightarrow> int" where
  "roundEven y =
     (let f = \<lfloor>y\<rfloor>
      in if y - of_int f < 1 / 2 then f
         else if 1 / 2 < y - of_int f then f + 1
         else if even f then f else f + 1)"

definition exponentOf :: "real \<Rightarrow> int" where
  "exponentOf x = max (- 1022) \<lfloor>log 2 \<bar>x\<bar>\<rfloor>"

definition fl :: "real \<Rightarrow> jsnum" where
  "fl x =
     (if x = 0 then Fin 0
      else (let q = pow2 (exponentOf x - 52);
                y = of_int (roundEven (x / q)) * q
            in if pow2 1024 \<le> \<bar>y\<bar> then (if 0 < x then PInf else NInf) else Fin y))"

text \<open>
  A length or a count is a whole number below \<open>2^53\<close>, which is a double as it is.
\<close>

definition num :: "nat \<Rightarrow> jsnum" where
  "num n = Fin (real n)"

text \<open>The operators \<^verbatim>\<open>+\<close>, unary \<^verbatim>\<open>-\<close>, binary \<^verbatim>\<open>-\<close>, \<^verbatim>\<open>*\<close> and \<^verbatim>\<open>/\<close>.\<close>

fun jsAdd :: "jsnum \<Rightarrow> jsnum \<Rightarrow> jsnum" where
  "jsAdd (Fin a) (Fin b) = fl (a + b)"
| "jsAdd NaN y = NaN"
| "jsAdd x NaN = NaN"
| "jsAdd PInf NInf = NaN"
| "jsAdd NInf PInf = NaN"
| "jsAdd PInf y = PInf"
| "jsAdd x PInf = PInf"
| "jsAdd NInf y = NInf"
| "jsAdd x NInf = NInf"

fun jsNeg :: "jsnum \<Rightarrow> jsnum" where
  "jsNeg (Fin a) = Fin (- a)"
| "jsNeg PInf = NInf"
| "jsNeg NInf = PInf"
| "jsNeg NaN = NaN"

definition jsSub :: "jsnum \<Rightarrow> jsnum \<Rightarrow> jsnum" where
  "jsSub x y = jsAdd x (jsNeg y)"

fun jsMul :: "jsnum \<Rightarrow> jsnum \<Rightarrow> jsnum" where
  "jsMul (Fin a) (Fin b) = fl (a * b)"
| "jsMul NaN y = NaN"
| "jsMul x NaN = NaN"
| "jsMul (Fin a) PInf = (if a = 0 then NaN else if 0 < a then PInf else NInf)"
| "jsMul (Fin a) NInf = (if a = 0 then NaN else if 0 < a then NInf else PInf)"
| "jsMul PInf (Fin b) = (if b = 0 then NaN else if 0 < b then PInf else NInf)"
| "jsMul NInf (Fin b) = (if b = 0 then NaN else if 0 < b then NInf else PInf)"
| "jsMul PInf PInf = PInf"
| "jsMul PInf NInf = NInf"
| "jsMul NInf PInf = NInf"
| "jsMul NInf NInf = PInf"

fun jsDiv :: "jsnum \<Rightarrow> jsnum \<Rightarrow> jsnum" where
  "jsDiv (Fin a) (Fin b) =
     (if b = 0 then (if a = 0 then NaN else if 0 < a then PInf else NInf) else fl (a / b))"
| "jsDiv NaN y = NaN"
| "jsDiv x NaN = NaN"
| "jsDiv (Fin a) PInf = Fin 0"
| "jsDiv (Fin a) NInf = Fin 0"
| "jsDiv PInf (Fin b) = (if 0 \<le> b then PInf else NInf)"
| "jsDiv NInf (Fin b) = (if 0 \<le> b then NInf else PInf)"
| "jsDiv PInf PInf = NaN"
| "jsDiv PInf NInf = NaN"
| "jsDiv NInf PInf = NaN"
| "jsDiv NInf NInf = NaN"

text \<open>The comparison \<^verbatim>\<open><\<close>: false when either side is NaN.\<close>

fun jsLess :: "jsnum \<Rightarrow> jsnum \<Rightarrow> bool" where
  "jsLess (Fin a) (Fin b) = (a < b)"
| "jsLess NaN y = False"
| "jsLess x NaN = False"
| "jsLess x NInf = False"
| "jsLess NInf y = True"
| "jsLess PInf y = False"
| "jsLess x PInf = True"

text \<open>
  \<^verbatim>\<open>Math.min\<close>, \<^verbatim>\<open>Math.max\<close> (NaN when either argument is), \<^verbatim>\<open>Math.abs\<close>,
  \<^verbatim>\<open>Math.floor\<close>, \<^verbatim>\<open>Math.ceil\<close> and \<^verbatim>\<open>Math.round\<close>, which rounds a half towards
  positive infinity. The last three are exact and keep the infinities and NaN.
\<close>

definition mathMin :: "jsnum \<Rightarrow> jsnum \<Rightarrow> jsnum" where
  "mathMin x y = (if x = NaN \<or> y = NaN then NaN else if jsLess y x then y else x)"

definition mathMax :: "jsnum \<Rightarrow> jsnum \<Rightarrow> jsnum" where
  "mathMax x y = (if x = NaN \<or> y = NaN then NaN else if jsLess x y then y else x)"

fun mathAbs :: "jsnum \<Rightarrow> jsnum" where
  "mathAbs (Fin a) = Fin \<bar>a\<bar>"
| "mathAbs PInf = PInf"
| "mathAbs NInf = PInf"
| "mathAbs NaN = NaN"

fun mathFloor :: "jsnum \<Rightarrow> jsnum" where
  "mathFloor (Fin a) = Fin (of_int \<lfloor>a\<rfloor>)"
| "mathFloor x = x"

fun mathCeil :: "jsnum \<Rightarrow> jsnum" where
  "mathCeil (Fin a) = Fin (of_int \<lceil>a\<rceil>)"
| "mathCeil x = x"

fun mathRound :: "jsnum \<Rightarrow> jsnum" where
  "mathRound (Fin a) = Fin (of_int \<lfloor>a + 1 / 2\<rfloor>)"
| "mathRound x = x"

text \<open>
  \<^verbatim>\<open>Math.exp\<close>, \<^verbatim>\<open>Math.log10\<close> and \<^verbatim>\<open>Math.pow(x, 2)\<close>. ECMAScript fixes their values
  at the infinities, at NaN and outside the domain, and leaves the last digits of the other
  values to the platform; here those are the rounded exact values.
\<close>

fun mathExp :: "jsnum \<Rightarrow> jsnum" where
  "mathExp (Fin a) = fl (exp a)"
| "mathExp PInf = PInf"
| "mathExp NInf = Fin 0"
| "mathExp NaN = NaN"

fun mathLog10 :: "jsnum \<Rightarrow> jsnum" where
  "mathLog10 (Fin a) = (if a < 0 then NaN else if a = 0 then NInf else fl (log 10 a))"
| "mathLog10 PInf = PInf"
| "mathLog10 NInf = NaN"
| "mathLog10 NaN = NaN"

fun mathSquare :: "jsnum \<Rightarrow> jsnum" where
  "mathSquare (Fin a) = fl (a * a)"
| "mathSquare PInf = PInf"
| "mathSquare NInf = PInf"
| "mathSquare NaN = NaN"

definition clamp01 :: "jsnum \<Rightarrow> jsnum" where
  "clamp01 x = mathMax (Fin 0) (mathMin (Fin 1) x)"

definition clamp0to100 :: "jsnum \<Rightarrow> jsnum" where
  "clamp0to100 x = mathMax (Fin 0) (mathMin (Fin 100) x)"

definition avg :: "jsnum list \<Rightarrow> jsnum" where
  "avg a = (if a \<noteq> [] then jsDiv (foldl jsAdd (Fin 0) a) (num (length a)) else Fin 0)"

text \<open>\<^verbatim>\<open>inter / (uni || 1)\<close> on two sets of words.\<close>

definition jaccard :: "jsstring set \<Rightarrow> jsstring set \<Rightarrow> jsnum" where
  "jaccard a b =
     (let inter = card (a \<inter> b); uni = (if card (a \<union> b) = 0 then 1 else card (a \<union> b))
      in jsDiv (num inter) (num uni))"

subsection \<open>The module's own objects\<close>

text \<open>
  \<^verbatim>\<open>DEFAULT_WEIGHTS\<close> and \<^verbatim>\<open>STOPWORDS\<close> are objects bound at the top level of the
  module; a function of the module could write to them as well as read them. They make up
  the state that passes from one call to the next. A weight is a number or, for a key given
  without a value, \<^verbatim>\<open>undefined\<close>, which arithmetic turns into NaN.
\<close>

datatype WeightKey = Coherence | Length | Vocab | Repetition | Readability

datatype jsvalue = Number jsnum | Undefined

fun toNumber :: "jsvalue \<Rightarrow> jsnum" where
  "toNumber (Number x) = x"
| "toNumber Undefined = NaN"

type_synonym Weights = "WeightKey \<Rightarrow> jsvalue"

text \<open>\<^verbatim>\<open>Partial<Weights>\<close>: each key may be absent.\<close>

type_synonym PartialWeights = "WeightKey \<Rightarrow> jsvalue option"

record Module =
  DEFAULT_WEIGHTS :: Weights
  STOPWORDS :: "jsstring list"

text \<open>The state once the module is loaded.\<close>

definition loaded :: Module where
  "loaded =
     \<lparr>DEFAULT_WEIGHTS =
        (\<lambda>k. case k of Coherence \<Rightarrow> Number (fl 0.3) | Length \<Rightarrow> Number (fl 0.2)
              | Vocab \<Rightarrow> Number (fl 0.25) | Repetition \<Rightarrow> Number (fl 0.1)
              | Readability \<Rightarrow> Number (fl 0.15)),
      STOPWORDS = map js
        [''the'', ''a'', ''an'', ''and'', ''or'', ''of'', ''to'', ''in'', ''for'', ''on'',
         ''with'', ''is'', ''are'', ''be'', ''as'', ''by'', ''that'', ''this'', ''it'', ''you'',
         ''your'', ''we'', ''our'', ''at'', ''from'', ''how'', ''what'', ''why'', ''when'',
         ''where'', ''which'', ''but'', ''if'', ''then'', ''so'', ''than'', ''can'', ''could'',
         ''should'', ''would'', ''about'', ''into'', ''over'', ''under'', ''more'', ''most'',
         ''some'', ''any'', ''such'', ''no'', ''not'', ''only'', ''own'', ''same'', ''too'',
         ''very'']\<rparr>"

definition contentWords :: "Module \<Rightarrow> jsstring list \<Rightarrow> jsstring list" where
  "contentWords st ws = filter (\<lambda>w. w \<notin> set (STOPWORDS st) \<and> length w > 2) ws"

subsection \<open>Requirement extractor\<close>

text \<open>\<^verbatim>\<open>.split(/\r?\n/)\<close>.\<close>

fun splitLines :: "jsstring \<Rightarrow> jsstring \<Rightarrow> jsstring list" where
  "splitLines acc [] = [acc]"
| "splitLines acc [c] = (if c = LF then [acc, []] else [acc @ [c]])"
| "splitLines acc (c # d # cs) =
     (if c = CR \<and> d = LF then acc # splitLines [] cs
      else if c = LF then acc # splitLines [] (d # cs)
      else splitLines (acc @ [c]) (d # cs))"

text \<open>\<^verbatim>\<open>\s+\<close> at the start of a string, and \<^verbatim>\<open>\s+\S\<close> there.\<close>

definition startsWithSpace :: "jsstring \<Rightarrow> bool" where
  "startsWithSpace s = (case s of [] \<Rightarrow> False | c # cs \<Rightarrow> isSpace c)"

definition spacesThenOther :: "jsstring \<Rightarrow> bool" where
  "spacesThenOther s = (startsWithSpace s \<and> dropWhile isSpace s \<noteq> [])"

text \<open>\<^verbatim>\<open>/^[-*\<bullet>]\s+/\<close> and \<^verbatim>\<open>/^\d+\.\s+/\<close>.\<close>

definition bulletPrefix :: "jsstring \<Rightarrow> bool" where
  "bulletPrefix line = (case line of [] \<Rightarrow> False | c # cs \<Rightarrow> isBullet c \<and> startsWithSpace cs)"

definition numberPrefix :: "jsstring \<Rightarrow> bool" where
  "numberPrefix line =
     (takeWhile isDigit line \<noteq> [] \<and>
      (case dropWhile isDigit line of [] \<Rightarrow> False | c # cs \<Rightarrow> c = 0x2E \<and> startsWithSpace cs))"

text \<open>
  \<^verbatim>\<open>line.replace(/^([-*\<bullet>]|\d+\.)\s+/, "")\<close>: the marker and all the white space after
  it are removed; a line without the prefix is returned as it is.
\<close>

definition stripMarker :: "jsstring \<Rightarrow> jsstring" where
  "stripMarker line =
     (if bulletPrefix line then dropWhile isSpace (tl line)
      else if numberPrefix line then dropWhile isSpace (tl (dropWhile isDigit line))
      else line)"

definition IMPERATIVE_VERBS :: "jsstring list" where
  "IMPERATIVE_VERBS = map js
     [''write'', ''create'', ''explain'', ''compare'', ''list'', ''design'', ''implement'',
      ''show'', ''build'', ''summarize'', ''analyze'', ''evaluate'', ''provide'', ''outline'',
      ''generate'']"

text \<open>
  Matching under the flag \<^verbatim>\<open>i\<close> without the unicode flag: a letter of the pattern matches
  itself and its ASCII capital, and no unit outside ASCII.
\<close>

definition asciiLower :: "jschar \<Rightarrow> jschar" where
  "asciiLower c = (if isUpperAZ c then c + 0x20 else c)"

text \<open>A verb at the start of the line, followed by a word boundary \<^verbatim>\<open>\b\<close>.\<close>

definition startsWithVerb :: "jsstring \<Rightarrow> jsstring \<Rightarrow> bool" where
  "startsWithVerb line v =
     (length v \<le> length line \<and> map asciiLower (take (length v) line) = v \<and>
      (case drop (length v) line of [] \<Rightarrow> True | c # cs \<Rightarrow> \<not> isWordChar c))"

definition imperativeLine :: "jsstring \<Rightarrow> bool" where
  "imperativeLine line = list_ex (startsWithVerb line) IMPERATIVE_VERBS"

text \<open>The loop over the lines, with its \<^verbatim>\<open>continue\<close>.\<close>

fun collectRequirements :: "jsstring list \<Rightarrow> jsstring list" where
  "collectRequirements [] = []"
| "collectRequirements (line # rest) =
     (if bulletPrefix line \<or> numberPrefix line then stripMarker line # collectRequirements rest
      else if imperativeLine line then line # collectRequirements rest
      else collectRequirements rest)"

definition extractRequirements :: "jsstring \<Rightarrow> jsstring list" where
  "extractRequirements prompt =
     (let lines = filter nonEmpty (map trim (splitLines [] prompt));
          reqs = collectRequirements lines
      in if reqs \<noteq> [] then reqs else [prompt])"

subsection \<open>Readability\<close>

text \<open>
  \<^verbatim>\<open>w.replace(/e\b/g, "")\<close>: an e is removed where a word boundary follows it, that is
  at the end of the string or before a unit that is not a word character.
\<close>

fun dropBoundaryE :: "jsstring \<Rightarrow> jsstring" where
  "dropBoundaryE [] = []"
| "dropBoundaryE [c] = (if c = 0x65 then [] else [c])"
| "dropBoundaryE (c # d # cs) =
     (if c = 0x65 \<and> \<not> isWordChar d then dropBoundaryE (d # cs) else c # dropBoundaryE (d # cs))"

definition isVowel :: "jschar \<Rightarrow> bool" where
  "isVowel c = (c = 0x61 \<or> c = 0x65 \<or> c = 0x69 \<or> c = 0x6F \<or> c = 0x75 \<or> c = 0x79)"

text \<open>
  The number of matches of \<^verbatim>\<open>/[aeiouy]+/g\<close>: the maximal runs of vowels. The flag says
  whether the unit before is a vowel. No match gives \<^verbatim>\<open>null\<close>, counted as 0.
\<close>

fun vowelGroups :: "bool \<Rightarrow> jsstring \<Rightarrow> nat" where
  "vowelGroups inGroup [] = 0"
| "vowelGroups inGroup (c # cs) =
     (if isVowel c then (if inGroup then 0 else 1) + vowelGroups True cs
      else vowelGroups False cs)"

definition syllableCount :: "jsstring \<Rightarrow> nat" where
  "syllableCount word =
     (let w = filter isLowerAZ (toLowerCase word)
      in if w = [] then 0 else max 1 (vowelGroups False (dropBoundaryE w)))"

definition fkGrade :: "jsstring \<Rightarrow> jsnum" where
  "fkGrade text =
     (let sentsArr = sentences text;
          wordsArr = tokenizeWords text;
          words = num (if length wordsArr = 0 then 1 else length wordsArr);
          sents = num (if length sentsArr = 0 then 1 else length sentsArr);
          syllables = num (foldl (\<lambda>acc w. acc + syllableCount w) 0 wordsArr)
      in jsSub (jsAdd (jsMul (fl 0.39) (jsDiv words sents))
                      (jsMul (fl 11.8) (jsDiv syllables words)))
               (fl 15.59))"

record ReadabilityResult =
  score :: jsnum
  grade :: jsnum

definition readabilityScore :: "jsstring \<Rightarrow> ReadabilityResult" where
  "readabilityScore text =
     (let grade = fkGrade text;
          target = Fin 10;
          span = Fin 6;
          raw = jsSub (Fin 1) (mathMin (Fin 1) (jsDiv (mathAbs (jsSub grade target)) span))
      in \<lparr>score = clamp01 raw, grade = grade\<rparr>)"

subsection \<open>Coherence\<close>

definition contentSet :: "Module \<Rightarrow> jsstring \<Rightarrow> jsstring set" where
  "contentSet st s = set (contentWords st (tokenizeWords s))"

text \<open>The loop over the adjacent pairs of sentences.\<close>

fun adjacentSims :: "Module \<Rightarrow> jsstring list \<Rightarrow> jsnum list" where
  "adjacentSims st (a # b # rest) =
     jaccard (contentSet st a) (contentSet st b) # adjacentSims st (b # rest)"
| "adjacentSims st [a] = []"
| "adjacentSims st [] = []"

definition variance :: "jsnum list \<Rightarrow> jsnum" where
  "variance sims =
     (let mean = avg sims
      in jsDiv (foldl (\<lambda>acc v. jsAdd acc (jsMul (jsSub v mean) (jsSub v mean))) (Fin 0) sims)
               (num (length sims)))"

definition stability :: "jsnum list \<Rightarrow> jsnum" where
  "stability sims = jsSub (Fin 1) (mathMin (Fin 1) (jsMul (variance sims) (Fin 3)))"

text \<open>
  \<^verbatim>\<open>/(^|\n)#{1,6}\s+\S|(^|\n)\d+\.\s+\S|(^|\n)[-\<bullet>*]\s+\S/.test(text)\<close>. Without the
  multiline flag \<^verbatim>\<open>^\<close> is the start of the text, so each alternative is tried at the start
  of the text and right after each line feed.
\<close>

definition headingStart :: "jsstring \<Rightarrow> bool" where
  "headingStart s =
     (let h = takeWhile (\<lambda>c. c = 0x23) s
      in 1 \<le> length h \<and> length h \<le> 6 \<and> spacesThenOther (dropWhile (\<lambda>c. c = 0x23) s))"

definition numberedStart :: "jsstring \<Rightarrow> bool" where
  "numberedStart s =
     (takeWhile isDigit s \<noteq> [] \<and>
      (case dropWhile isDigit s of [] \<Rightarrow> False | c # cs \<Rightarrow> c = 0x2E \<and> spacesThenOther cs))"

definition bulletStart :: "jsstring \<Rightarrow> bool" where
  "bulletStart s = (case s of [] \<Rightarrow> False | c # cs \<Rightarrow> isBullet c \<and> spacesThenOther cs)"

fun afterLineFeeds :: "jsstring \<Rightarrow> jsstring list" where
  "afterLineFeeds [] = []"
| "afterLineFeeds (c # cs) = (if c = LF then cs # afterLineFeeds cs else afterLineFeeds cs)"

definition hasHeadings :: "jsstring \<Rightarrow> bool" where
  "hasHeadings text =
     list_ex (\<lambda>s. headingStart s \<or> numberedStart s \<or> bulletStart s) (text # afterLineFeeds text)"

text \<open>
  \<^verbatim>\<open>(text.match(/(^|\n)([-\<bullet>*]|\d+\.)\s+\S/g) || []).length\<close>: the matches are found from
  left to right and do not overlap, each search starting where the match before ended.
  \<open>listItemMatch\<close> gives what is left of the string after \<^verbatim>\<open>([-\<bullet>*]|\d+\.)\s+\S\<close>.
\<close>

definition afterSpacesOther :: "jsstring \<Rightarrow> jsstring option" where
  "afterSpacesOther s = (if spacesThenOther s then Some (tl (dropWhile isSpace s)) else None)"

definition listItemMatch :: "jsstring \<Rightarrow> jsstring option" where
  "listItemMatch s =
     (case s of
        [] \<Rightarrow> None
      | c # cs \<Rightarrow>
          if isBullet c then afterSpacesOther cs
          else if takeWhile isDigit s \<noteq> [] then
            (case dropWhile isDigit s of
               [] \<Rightarrow> None
             | d # ds \<Rightarrow> if d = 0x2E then afterSpacesOther ds else None)
          else None)"

definition listLineAt :: "bool \<Rightarrow> jsstring \<Rightarrow> jsstring option" where
  "listLineAt atStart s =
     (case (if atStart then listItemMatch s else None) of
        Some r \<Rightarrow> Some r
      | None \<Rightarrow> (case s of [] \<Rightarrow> None | c # cs \<Rightarrow> if c = LF then listItemMatch cs else None))"

function countListLines :: "bool \<Rightarrow> jsstring \<Rightarrow> nat" where
  "countListLines atStart s =
     (case listLineAt atStart s of
        Some r \<Rightarrow> 1 + countListLines False r
      | None \<Rightarrow> (case s of [] \<Rightarrow> 0 | c # cs \<Rightarrow> countListLines False cs))"
  by pat_completeness auto
termination
proof -
  have spaces: "length r < length s" if "afterSpacesOther s = Some r" for s r
  proof -
    from that have ne: "dropWhile isSpace s \<noteq> []" and r: "r = tl (dropWhile isSpace s)"
      by (auto simp: afterSpacesOther_def spacesThenOther_def split: if_splits)
    have "length (dropWhile isSpace s) \<le> length s" by (rule length_dropWhile_le)
    with ne r show ?thesis by (cases "dropWhile isSpace s") auto
  qed
  have item: "length r < length s" if "listItemMatch s = Some r" for s r
  proof (cases s)
    case Nil
    with that show ?thesis by (simp add: listItemMatch_def)
  next
    case (Cons c cs)
    show ?thesis
    proof (cases "isBullet c")
      case True
      with that Cons have "afterSpacesOther cs = Some r" by (simp add: listItemMatch_def)
      from spaces [OF this] Cons show ?thesis by simp
    next
      case False
      with that Cons obtain d ds where d: "dropWhile isDigit s = d # ds"
        and m: "afterSpacesOther ds = Some r"
        by (auto simp: listItemMatch_def split: if_splits list.splits)
      have "length (dropWhile isDigit s) \<le> length s" by (rule length_dropWhile_le)
      with d spaces [OF m] show ?thesis by simp
    qed
  qed
  have line: "length r < length s" if "listLineAt b s = Some r" for b s r
  proof (cases "b \<and> listItemMatch s \<noteq> None")
    case True
    with that have "listItemMatch s = Some r" by (auto simp: listLineAt_def)
    then show ?thesis by (rule item)
  next
    case False
    with that obtain c cs where s: "s = c # cs" and m: "listItemMatch cs = Some r"
      by (auto simp: listLineAt_def split: if_splits list.splits option.splits)
    from item [OF m] s show ?thesis by simp
  qed
  show ?thesis
    by (relation "measure (\<lambda>(b, s). length s)") (auto dest: line)
qed

definition paragraphs :: "jsstring \<Rightarrow> jsstring list" where
  "paragraphs text = filter nonEmpty (splitBlankLines [] text)"

definition paraPenalty :: "jsstring \<Rightarrow> jsnum" where
  "paraPenalty text =
     (if list_ex (\<lambda>p. length p > 600 \<and> LF \<notin> set p) (paragraphs text) then fl 0.1 else Fin 0)"

definition transLex :: "jsstring list" where
  "transLex = map js
     [''however'', ''therefore'', ''thus'', ''consequently'', ''furthermore'', ''moreover'',
      ''meanwhile'', ''nevertheless'', ''alternatively'', ''additionally'', ''similarly'',
      ''conversely'', ''instead'', ''accordingly'', ''finally'', ''first'', ''second'', ''third'',
      ''overall'', ''in'', ''conclusion'', ''next'']"

definition hasTransition :: "jsstring \<Rightarrow> bool" where
  "hasTransition s = list_ex (\<lambda>t. t \<in> set transLex) (tokenizeWords s)"

definition transCount :: "jsstring list \<Rightarrow> nat" where
  "transCount sents = foldl (\<lambda>acc s. acc + (if hasTransition s then 1 else 0)) 0 sents"

definition transScore :: "jsstring list \<Rightarrow> jsnum" where
  "transScore sents =
     mathMin (Fin 1)
       (jsDiv (num (transCount sents)) (mathMax (Fin 1) (jsSub (num (length sents)) (Fin 1))))"

definition structureBonus :: "jsstring \<Rightarrow> jsstring list \<Rightarrow> jsnum" where
  "structureBonus text sents =
     (let listLines = num (countListLines True text);
          avgSentPerPara =
            jsDiv (num (length sents)) (mathMax (Fin 1) (num (length (paragraphs text))))
      in jsAdd
           (jsAdd (if hasHeadings text then fl 0.12 else Fin 0)
                  (mathMin (fl 0.12) (jsMul listLines (fl 0.02))))
           (jsMul (clamp01 (jsSub (Fin 1)
                      (jsDiv (mathAbs (jsSub avgSentPerPara (Fin 4))) (Fin 6))))
                  (fl 0.1)))"

definition calculateCoherenceScore :: "Module \<Rightarrow> jsstring \<Rightarrow> jsnum" where
  "calculateCoherenceScore st text =
     (let sents = sentences text
      in if length sents \<le> 1
         then (let tokens = length (tokenizeWords text)
               in clamp01 (if tokens > 40 then fl 0.6 else fl 0.5))
         else (let sims = adjacentSims st sents;
                   mean = avg sims;
                   cohesion = clamp01
                     (jsAdd (jsAdd (jsAdd (jsMul (fl 0.6) mean)
                                          (jsMul (fl 0.2) (stability sims)))
                                   (jsMul (fl 0.1) (transScore sents)))
                            (structureBonus text sents))
               in clamp01 (jsSub cohesion (paraPenalty text))))"

subsection \<open>Length fit\<close>

definition lengthReqCount :: "jsstring \<Rightarrow> nat" where
  "lengthReqCount prompt =
     (let reqs = extractRequirements prompt
      in min 10 (if length reqs = 0 then 1 else length reqs))"

definition lengthTarget :: "jsstring \<Rightarrow> jsnum" where
  "lengthTarget prompt =
     (let reqCount = num (lengthReqCount prompt); base = Fin 100; perReq = Fin 60
      in mathMax (Fin 60) (mathMin (Fin 1200) (jsAdd base (jsMul perReq reqCount))))"

text \<open>The score for a response with at least one word, given the target.\<close>

definition lengthScoreFor :: "jsstring \<Rightarrow> jsnum \<Rightarrow> jsnum" where
  "lengthScoreFor text target =
     (let responseWords = length (tokenizeWords text);
          ratio = jsDiv (num responseWords) target;
          sigma = mathMin (fl 0.9) (jsAdd (fl 0.28) (jsMul (fl 0.0004) target));
          score0 = mathExp (jsDiv (jsNeg (mathSquare (jsSub ratio (Fin 1))))
                                  (jsMul (jsMul (Fin 2) sigma) sigma));
          score = (if responseWords < 40
                   then jsMul score0 (jsDiv (num responseWords) (Fin 40)) else score0);
          hardMin = mathFloor (jsMul target (fl 0.5));
          hardMax = mathCeil (jsMul target (fl 1.8));
          penalty0 = (if jsLess (num responseWords) hardMin
                      then jsDiv (jsSub hardMin (num responseWords)) hardMin else Fin 0);
          penalty = (if jsLess hardMax (num responseWords)
                     then jsDiv (jsSub (num responseWords) hardMax) hardMax else penalty0);
          sentCount = num (length (sentences text));
          paraCount = num (if length (paragraphs text) = 0 then 1 else length (paragraphs text));
          bonus = clamp01 (jsDiv (jsDiv sentCount paraCount) (Fin 6))
      in clamp01 (jsMul (jsMul score (jsSub (Fin 1) (jsMul (fl 0.6) penalty)))
                        (jsAdd (fl 0.9) (jsMul (fl 0.1) bonus))))"

definition calculateLengthScore :: "jsstring \<Rightarrow> jsstring \<Rightarrow> jsnum" where
  "calculateLengthScore text prompt =
     (let responseWords = length (tokenizeWords text);
          promptWords = length (tokenizeWords prompt)
      in if responseWords = 0 then Fin 0 else lengthScoreFor text (lengthTarget prompt))"

subsection \<open>Frequency tables\<close>

text \<open>
  The tables \<^verbatim>\<open>freq\<close> and \<^verbatim>\<open>bigrams\<close> are plain objects, read with
  \<^verbatim>\<open>(table[k] ?? 0) + 1\<close>. A read finds the object's own entry, or else what
  \<^verbatim>\<open>Object.prototype\<close> has under that name. A key here is made of the units
  \<^verbatim>\<open>[a-z0-9 -]\<close>, and the only such name on the prototype is \<^verbatim>\<open>constructor\<close>,
  a function: adding 1 to it gives a text, not a number, and so does every later addition.
  An entry is therefore a count or such a text. The order of the entries plays no part in
  what is computed from them.
\<close>

datatype tally = Count nat | NotANumber

definition inherited :: "jsstring \<Rightarrow> bool" where
  "inherited k = (k = js ''constructor'')"

fun setEntry :: "jsstring \<Rightarrow> tally \<Rightarrow> (jsstring \<times> tally) list \<Rightarrow> (jsstring \<times> tally) list" where
  "setEntry k v [] = [(k, v)]"
| "setEntry k v ((k', v') # rest) =
     (if k' = k then (k, v) # rest else (k', v') # setEntry k v rest)"

definition increment :: "(jsstring \<times> tally) list \<Rightarrow> jsstring \<Rightarrow> (jsstring \<times> tally) list" where
  "increment table k =
     (let old = (case map_of table k of
                   Some v \<Rightarrow> v
                 | None \<Rightarrow> if inherited k then NotANumber else Count 0);
          new = (case old of Count n \<Rightarrow> Count (n + 1) | NotANumber \<Rightarrow> NotANumber)
      in setEntry k new table)"

definition tallyValues :: "(jsstring \<times> tally) list \<Rightarrow> tally list" where
  "tallyValues table = map snd table"

subsection \<open>Vocabulary richness\<close>

definition calculateVocabularyRichness :: "Module \<Rightarrow> jsstring \<Rightarrow> jsnum" where
  "calculateVocabularyRichness st text =
     (let tokens = tokenizeWords text;
          words = contentWords st tokens;
          N = length words
      in if N = 0 then Fin 0
         else (let unique = card (set words);
                   ttr = jsDiv (num unique) (num N);
                   freq = foldl increment [] words;
                   hapax = jsDiv (num (length (filter (\<lambda>c. c = Count 1) (tallyValues freq))))
                                 (mathMax (Fin 1) (num unique));
                   lengthDamp = mathMin (Fin 1)
                                  (jsDiv (mathLog10 (jsAdd (num N) (Fin 10))) (Fin 2));
                   base = clamp01 (jsAdd (jsMul (fl 0.7) ttr) (jsMul (fl 0.3) hapax));
                   score = jsAdd (jsMul base lengthDamp)
                                 (jsMul (fl 0.2) (jsSub (Fin 1) lengthDamp))
               in clamp01 score))"

subsection \<open>Repetition penalty\<close>

fun bigramKeys :: "jsstring list \<Rightarrow> jsstring list" where
  "bigramKeys (a # b # rest) = (a @ [SP] @ b) # bigramKeys (b # rest)"
| "bigramKeys [a] = []"
| "bigramKeys [] = []"

definition moreThanOnce :: "tally \<Rightarrow> bool" where
  "moreThanOnce c = (case c of Count n \<Rightarrow> n > 1 | NotANumber \<Rightarrow> False)"

definition extra :: "tally \<Rightarrow> nat" where
  "extra c = (case c of Count n \<Rightarrow> n - 1 | NotANumber \<Rightarrow> 0)"

definition repetitionPenaltyScore :: "jsstring \<Rightarrow> jsnum" where
  "repetitionPenaltyScore text =
     (let w = tokenizeWords text
      in if length w < 6 then Fin 1
         else (let bigrams = foldl increment [] (bigramKeys w);
                   repeats = foldl (\<lambda>a b. a + extra b) 0
                               (filter moreThanOnce (tallyValues bigrams));
                   penalty = mathMin (Fin 1)
                               (jsDiv (num repeats)
                                      (mathMax (Fin 1) (jsDiv (num (length w)) (Fin 12))))
               in jsSub (Fin 1) penalty))"

subsection \<open>Aggregator\<close>

text \<open>\<^verbatim>\<open>{ ...base, ...over }\<close>: a new object; an entry of \<open>over\<close> wins.\<close>

definition spread :: "Weights \<Rightarrow> PartialWeights \<Rightarrow> Weights" where
  "spread base over k = (case over k of Some v \<Rightarrow> v | None \<Rightarrow> base k)"

text \<open>
  The entry \<^verbatim>\<open>requirements\<close> of the diagnostics is a string in
  \<^verbatim>\<open>src/app/lib/metrics.ts\<close> and an array of strings in the second copy.
\<close>

datatype DetailValue = Text jsstring | Items "jsstring list"

record Details =
  sentenceCount :: nat
  wordCount :: nat
  requirements :: DetailValue
  fkGrade_field :: jsnum

record MetricResult =
  coherenceScore :: jsnum
  lengthScore :: jsnum
  vocabularyRichnessScore :: jsnum
  repetitionPenalty :: jsnum
  readabilityScore_field :: jsnum
  overallScore :: jsnum
  details :: Details

text \<open>The sum \<^verbatim>\<open>weighted\<close>, added from left to right.\<close>

definition weighted :: "Module \<Rightarrow> jsstring \<Rightarrow> jsstring \<Rightarrow> Weights \<Rightarrow> jsnum" where
  "weighted st response prompt w =
     jsAdd (jsAdd (jsAdd (jsAdd
       (jsMul (calculateCoherenceScore st response) (toNumber (w Coherence)))
       (jsMul (calculateLengthScore response prompt) (toNumber (w Length))))
       (jsMul (calculateVocabularyRichness st response) (toNumber (w Vocab))))
       (jsMul (repetitionPenaltyScore response) (toNumber (w Repetition))))
       (jsMul (score (readabilityScore response)) (toNumber (w Readability)))"

text \<open>
  A call gets the state of the module and returns its result with the state it leaves. The
  body builds \<open>w\<close> as a new object and writes to neither object of the module.
\<close>

definition calculateMetrics ::
  "jsstring \<Rightarrow> jsstring \<Rightarrow> PartialWeights \<Rightarrow> Module \<Rightarrow> MetricResult \<times> Module" where
  "calculateMetrics response prompt weights st =
     (let w = spread (DEFAULT_WEIGHTS st) weights;
          coherence = calculateCoherenceScore st response;
          length' = calculateLengthScore response prompt;
          vocab = calculateVocabularyRichness st response;
          repetition = repetitionPenaltyScore response;
          reqs = extractRequirements prompt;
          readability = readabilityScore response;
          overall = clamp0to100 (mathRound (jsMul (weighted st response prompt w) (Fin 100)))
      in (\<lparr>coherenceScore = clamp01 coherence,
           lengthScore = clamp01 length',
           vocabularyRichnessScore = clamp01 vocab,
           repetitionPenalty = clamp01 repetition,
           readabilityScore_field = clamp01 (score readability),
           overallScore = overall,
           details = \<lparr>sentenceCount = length (sentences response),
                      wordCount = length (tokenizeWords response),
                      requirements = Text (joinWith (js '', '') reqs),
                      fkGrade_field = grade readability\<rparr>\<rparr>,
          st))"

text \<open>
  The second copy of the module differs from the first in one expression:
  \<^verbatim>\<open>requirements: reqs\<close> in place of \<^verbatim>\<open>requirements: reqs.join(", ")\<close>. The functions
  it calls are the same text as in the first, and it has objects of its own with the same
  contents.
\<close>

definition calculateMetrics_copy ::
  "jsstring \<Rightarrow> jsstring \<Rightarrow> PartialWeights \<Rightarrow> Module \<Rightarrow> MetricResult \<times> Module" where
  "calculateMetrics_copy response prompt weights st =
     (let w = spread (DEFAULT_WEIGHTS st) weights;
          coherence = calculateCoherenceScore st response;
          length' = calculateLengthScore response prompt;
          vocab = calculateVocabularyRichness st response;
          repetition = repetitionPenaltyScore response;
          reqs = extractRequirements prompt;
          readability = readabilityScore response;
          overall = clamp0to100 (mathRound (jsMul (weighted st response prompt w) (Fin 100)))
      in (\<lparr>coherenceScore = clamp01 coherence,
           lengthScore = clamp01 length',
           vocabularyRichnessScore = clamp01 vocab,
           repetitionPenalty = clamp01 repetition,
           readabilityScore_field = clamp01 (score readability),
           overallScore = overall,
           details = \<lparr>sentenceCount = length (sentences response),
                      wordCount = length (tokenizeWords response),
                      requirements = Items reqs,
                      fkGrade_field = grade readability\<rparr>\<rparr>,
          st))"

subsection \<open>Ranges of numbers\<close>

text \<open>
  A number between 0 and 1; a whole number between 0 and 100; a value that holds a finite
  double; a number that is at least 0 or positive infinity; a finite number of size at
  most \<open>2^k\<close>.
\<close>

definition inUnit :: "jsnum \<Rightarrow> bool" where
  "inUnit x = (case x of Fin r \<Rightarrow> 0 \<le> r \<and> r \<le> 1 | PInf \<Rightarrow> False | NInf \<Rightarrow> False | NaN \<Rightarrow> False)"

definition wholePercent :: "jsnum \<Rightarrow> bool" where
  "wholePercent x =
     (case x of Fin r \<Rightarrow> r \<in> \<int> \<and> 0 \<le> r \<and> r \<le> 100 | PInf \<Rightarrow> False | NInf \<Rightarrow> False
      | NaN \<Rightarrow> False)"

definition finiteDouble :: "jsvalue \<Rightarrow> bool" where
  "finiteDouble v =
     (case v of
        Number x \<Rightarrow> (case x of Fin r \<Rightarrow> fl r = Fin r | PInf \<Rightarrow> False | NInf \<Rightarrow> False
                     | NaN \<Rightarrow> False)
      | Undefined \<Rightarrow> False)"

definition atLeastZero :: "jsnum \<Rightarrow> bool" where
  "atLeastZero x = (case x of Fin r \<Rightarrow> 0 \<le> r | PInf \<Rightarrow> True | NInf \<Rightarrow> False | NaN \<Rightarrow> False)"

definition boundedBy :: "int \<Rightarrow> jsnum \<Rightarrow> bool" where
  "boundedBy k x = (case x of Fin r \<Rightarrow> \<bar>r\<bar> \<le> pow2 k | PInf \<Rightarrow> False | NInf \<Rightarrow> False | NaN \<Rightarrow> False)"

text \<open>A finite number within \<open>eps\<close> of \<open>c\<close>.\<close>

definition near :: "real \<Rightarrow> real \<Rightarrow> jsnum \<Rightarrow> bool" where
  "near c eps x = (case x of Fin r \<Rightarrow> \<bar>r - c\<bar> \<le> eps | PInf \<Rightarrow> False | NInf \<Rightarrow> False | NaN \<Rightarrow> False)"

section \<open>Properties\<close>

subsection \<open>Rounding to a double\<close>

lemma pow2_pos: "0 < pow2 e"
  by (simp add: pow2_def)

lemma pow2_add: "pow2 (a + b) = pow2 a * pow2 b"
  by (simp add: pow2_def powr_add)

lemma pow2_mono: "a \<le> b \<Longrightarrow> pow2 a \<le> pow2 b"
  by (simp add: pow2_def)

lemma pow2_strict_mono: "a < b \<Longrightarrow> pow2 a < pow2 b"
  by (simp add: pow2_def)

lemma pow2_nat: "0 \<le> e \<Longrightarrow> pow2 e = of_int (2 ^ nat e)"
  by (simp add: pow2_def powr_real_of_int)

lemma pow2_0: "pow2 0 = 1"
  by (simp add: pow2_def)

lemma roundEven_whole: "roundEven (of_int n) = n"
  by (simp add: roundEven_def)

lemma roundEven_upper: "y \<le> of_int n \<Longrightarrow> roundEven y \<le> n"
proof -
  assume a: "y \<le> of_int n"
  have f: "\<lfloor>y\<rfloor> \<le> n" using a by (simp add: floor_le_iff)
  show ?thesis
  proof (cases "y = of_int \<lfloor>y\<rfloor>")
    case True
    then have "roundEven y = \<lfloor>y\<rfloor>" by (simp add: roundEven_def Let_def)
    with f show ?thesis by simp
  next
    case False
    then have "of_int \<lfloor>y\<rfloor> < y" by (metis of_int_floor_le order_less_le)
    with a have "of_int \<lfloor>y\<rfloor> < (of_int n :: real)" by linarith
    then have "\<lfloor>y\<rfloor> < n" by simp
    moreover have "roundEven y \<le> \<lfloor>y\<rfloor> + 1" by (simp add: roundEven_def Let_def)
    ultimately show ?thesis by linarith
  qed
qed

lemma roundEven_lower: "of_int n \<le> y \<Longrightarrow> n \<le> roundEven y"
proof -
  assume a: "of_int n \<le> y"
  then have "n \<le> \<lfloor>y\<rfloor>" by (simp add: le_floor_iff)
  moreover have "\<lfloor>y\<rfloor> \<le> roundEven y" by (simp add: roundEven_def Let_def)
  ultimately show ?thesis by linarith
qed

lemma floor_log2_le:
  assumes "x \<noteq> 0" and "\<bar>x\<bar> \<le> pow2 k"
  shows "\<lfloor>log 2 \<bar>x\<bar>\<rfloor> \<le> k"
proof -
  from assms have "log 2 \<bar>x\<bar> \<le> log 2 (pow2 k)"
    by (simp add: pow2_def del: log_powr_cancel)
  then have "log 2 \<bar>x\<bar> \<le> of_int k" by (simp add: pow2_def)
  then show ?thesis by (simp add: floor_le_iff)
qed

lemma floor_log2_ge:
  assumes "pow2 k \<le> \<bar>x\<bar>"
  shows "k \<le> \<lfloor>log 2 \<bar>x\<bar>\<rfloor>"
proof -
  from assms pow2_pos [of k] have p: "0 < \<bar>x\<bar>" by linarith
  with assms have "log 2 (pow2 k) \<le> log 2 \<bar>x\<bar>"
    using pow2_pos [of k] by (simp del: log_powr_cancel)
  then have "of_int k \<le> log 2 \<bar>x\<bar>" by (simp add: pow2_def)
  then show ?thesis by (simp add: le_floor_iff)
qed

lemma floor_log2_below:
  assumes "x \<noteq> 0"
  shows "pow2 \<lfloor>log 2 \<bar>x\<bar>\<rfloor> \<le> \<bar>x\<bar>"
proof -
  from assms have "0 < \<bar>x\<bar>" by simp
  then have "2 powr (of_int \<lfloor>log 2 \<bar>x\<bar>\<rfloor>) \<le> \<bar>x\<bar> \<and> \<bar>x\<bar> < 2 powr (of_int (\<lfloor>log 2 \<bar>x\<bar>\<rfloor> + 1))"
    by (subst floor_log_eq_powr_iff [symmetric]) simp_all
  then show ?thesis by (simp add: pow2_def)
qed

text \<open>A bound that is a power of two is kept by rounding.\<close>

lemma fl_bounded:
  assumes "\<bar>x\<bar> \<le> pow2 k" and "- 1022 \<le> k" and "k \<le> 1023"
  shows "\<exists>y. fl x = Fin y \<and> \<bar>y\<bar> \<le> pow2 k \<and> (0 \<le> x \<longrightarrow> 0 \<le> y) \<and> (x \<le> 0 \<longrightarrow> y \<le> 0)"
proof (cases "x = 0")
  case True
  then show ?thesis using pow2_pos [of k] by (simp add: fl_def less_imp_le)
next
  case False
  define e where "e = exponentOf x"
  define q where "q = pow2 (e - 52)"
  define m where "m = roundEven (x / q)"
  have ek: "e \<le> k"
    using floor_log2_le [OF False assms(1)] assms(2) by (simp add: e_def exponentOf_def)
  have q: "0 < q" by (simp add: q_def pow2_pos)
  define N :: int where "N = 2 ^ nat (k - e + 52)"
  have N: "pow2 k = of_int N * q"
  proof -
    have "pow2 k = pow2 ((k - e + 52) + (e - 52))" by simp
    also have "\<dots> = pow2 (k - e + 52) * q" unfolding q_def by (rule pow2_add)
    also have "pow2 (k - e + 52) = of_int N" unfolding N_def using ek by (intro pow2_nat) simp
    finally show ?thesis .
  qed
  from assms(1) have "x \<le> of_int N * q" and "- (of_int N * q) \<le> x" unfolding N by linarith+
  with q have "x / q \<le> of_int N" and "of_int (- N) \<le> x / q"
    by (simp_all add: pos_divide_le_eq pos_le_divide_eq)
  then have "m \<le> N" and "- N \<le> m"
    unfolding m_def by (auto intro: roundEven_upper roundEven_lower)
  then have "\<bar>real_of_int m\<bar> \<le> of_int N" by linarith
  with q have b: "\<bar>of_int m * q\<bar> \<le> pow2 k"
    unfolding N by (simp add: abs_mult mult_right_mono)
  have "pow2 k < pow2 1024" using assms(3) by (intro pow2_strict_mono) simp
  with b have fin: "fl x = Fin (of_int m * q)"
    using False by (simp add: fl_def Let_def e_def [symmetric] q_def [symmetric] m_def [symmetric])
  have pos: "0 \<le> x \<longrightarrow> 0 \<le> of_int m * q"
  proof
    assume "0 \<le> x"
    with q have "of_int 0 \<le> x / q" by simp
    then have "0 \<le> m" unfolding m_def by (rule roundEven_lower)
    with q show "0 \<le> of_int m * q" by simp
  qed
  have neg: "x \<le> 0 \<longrightarrow> of_int m * q \<le> 0"
  proof
    assume "x \<le> 0"
    with q have "x / q \<le> of_int 0" by (simp add: divide_le_0_iff)
    then have "m \<le> 0" unfolding m_def by (rule roundEven_upper)
    with q show "of_int m * q \<le> 0" by (simp add: mult_le_0_iff)
  qed
  from fin b pos neg show ?thesis by blast
qed

text \<open>Rounding keeps the sign and never gives NaN.\<close>

lemma fl_not_NaN: "fl x \<noteq> NaN"
  by (simp add: fl_def Let_def)

lemma fl_nonneg:
  assumes "0 \<le> x"
  shows "fl x = PInf \<or> (\<exists>y. fl x = Fin y \<and> 0 \<le> y)"
proof (cases "x = 0")
  case True
  then show ?thesis by (simp add: fl_def)
next
  case False
  with assms have x: "0 < x" by simp
  have q: "0 < pow2 (exponentOf x - 52)" by (rule pow2_pos)
  with x have "of_int 0 \<le> x / pow2 (exponentOf x - 52)" by simp
  then have "0 \<le> roundEven (x / pow2 (exponentOf x - 52))" by (rule roundEven_lower)
  with q have "0 \<le> of_int (roundEven (x / pow2 (exponentOf x - 52))) * pow2 (exponentOf x - 52)"
    by simp
  with x show ?thesis by (simp add: fl_def Let_def)
qed

lemma fl_nonpos:
  assumes "x \<le> 0"
  shows "fl x = NInf \<or> (\<exists>y. fl x = Fin y \<and> y \<le> 0)"
proof (cases "x = 0")
  case True
  then show ?thesis by (simp add: fl_def)
next
  case False
  with assms have x: "x < 0" by simp
  have q: "0 < pow2 (exponentOf x - 52)" by (rule pow2_pos)
  with x have "x / pow2 (exponentOf x - 52) \<le> of_int 0" by (simp add: divide_le_0_iff)
  then have "roundEven (x / pow2 (exponentOf x - 52)) \<le> 0" by (rule roundEven_upper)
  with q have "of_int (roundEven (x / pow2 (exponentOf x - 52))) * pow2 (exponentOf x - 52) \<le> 0"
    by (simp add: mult_le_0_iff)
  with x show ?thesis by (simp add: fl_def Let_def)
qed

text \<open>A lower bound that is a power of two is kept by rounding.\<close>

lemma fl_at_least:
  assumes "pow2 k \<le> x" and "- 1022 \<le> k"
  shows "fl x = PInf \<or> (\<exists>y. fl x = Fin y \<and> pow2 k \<le> y)"
proof -
  from assms(1) pow2_pos [of k] have x: "0 < x" by linarith
  define e where "e = exponentOf x"
  define q where "q = pow2 (e - 52)"
  define m where "m = roundEven (x / q)"
  have q: "0 < q" by (simp add: q_def pow2_pos)
  from assms(1) x have "pow2 k \<le> \<bar>x\<bar>" by simp
  from floor_log2_ge [OF this] have kl: "k \<le> \<lfloor>log 2 \<bar>x\<bar>\<rfloor>" .
  with assms(2) have e: "e = \<lfloor>log 2 \<bar>x\<bar>\<rfloor>" by (simp add: e_def exponentOf_def)
  have "pow2 e \<le> x"
    using floor_log2_below [of x] x e by simp
  moreover have "pow2 e = of_int (2 ^ 52) * q"
  proof -
    have "pow2 e = pow2 (52 + (e - 52))" by simp
    also have "\<dots> = pow2 52 * q" unfolding q_def by (rule pow2_add)
    also have "pow2 52 = of_int (2 ^ 52)" using pow2_nat [of 52] by simp
    finally show ?thesis .
  qed
  ultimately have "of_int (2 ^ 52) * q \<le> x" by simp
  with q have "of_int (2 ^ 52) \<le> x / q" by (simp add: pos_le_divide_eq)
  then have "2 ^ 52 \<le> m" unfolding m_def by (rule roundEven_lower)
  then have "(of_int (2 ^ 52) :: real) \<le> of_int m" by (simp only: of_int_le_iff)
  with q have "of_int (2 ^ 52) * q \<le> of_int m * q" by (simp add: mult_right_mono)
  with \<open>pow2 e = of_int (2 ^ 52) * q\<close> have "pow2 e \<le> of_int m * q" by simp
  moreover from kl e have "pow2 k \<le> pow2 e" by (intro pow2_mono) simp
  ultimately have "pow2 k \<le> of_int m * q" by linarith
  with x show ?thesis
    by (simp add: fl_def Let_def e_def [symmetric] q_def [symmetric] m_def [symmetric])
qed

text \<open>Whole numbers below \<open>2^53\<close> in size are doubles.\<close>

lemma fl_whole:
  assumes "\<bar>i\<bar> \<le> 2 ^ 53"
  shows "fl (of_int i) = Fin (of_int i)"
proof (cases "i = 0")
  case True
  then show ?thesis by (simp add: fl_def)
next
  case False
  define x :: real where "x = of_int i"
  define e where "e = exponentOf x"
  define q where "q = pow2 (e - 52)"
  have x0: "x \<noteq> 0" using False by (simp add: x_def)
  have "\<bar>x\<bar> \<le> pow2 53"
    using assms pow2_nat [of 53] by (simp add: x_def)
  from floor_log2_le [OF x0 this] have e53: "e \<le> 53" by (simp add: e_def exponentOf_def)
  have "pow2 0 \<le> \<bar>x\<bar>" using False by (simp add: pow2_0 x_def)
  from floor_log2_ge [OF this] have e0: "0 \<le> e" by (simp add: e_def exponentOf_def)
  show ?thesis
  proof (cases "e = 53")
    case True
    have "\<lfloor>log 2 \<bar>x\<bar>\<rfloor> = 53" using True by (simp add: e_def exponentOf_def max_def split: if_splits)
    with floor_log2_below [OF x0] have "pow2 53 \<le> \<bar>x\<bar>" by simp
    with \<open>\<bar>x\<bar> \<le> pow2 53\<close> have ax: "\<bar>x\<bar> = pow2 53" by linarith
    have q2: "q = 2" using True pow2_nat [of 1] by (simp add: q_def)
    have "x / q = of_int (i div 2) \<and> even i"
    proof -
      from ax pow2_nat [of 53] have "\<bar>i\<bar> = 2 ^ 53" by (simp add: x_def)
      then have "i = 2 ^ 53 \<or> i = - (2 ^ 53)" by linarith
      then show ?thesis by (auto simp: x_def q2)
    qed
    then have "of_int (roundEven (x / q)) * q = x"
      by (auto simp: roundEven_whole q2 x_def)
    moreover have "\<bar>x\<bar> < pow2 1024" using ax by (simp add: pow2_strict_mono)
    ultimately show ?thesis using x0
      by (simp add: fl_def Let_def e_def [symmetric] q_def [symmetric] x_def [symmetric])
  next
    case False
    with e53 have e52: "e \<le> 52" by simp
    define s :: int where "s = 2 ^ nat (52 - e)"
    have "pow2 (52 - e) = of_int s" unfolding s_def using e52 by (intro pow2_nat) simp
    moreover have "pow2 (52 - e) * q = 1"
      unfolding q_def using pow2_add [of "52 - e" "e - 52"] by (simp add: pow2_0)
    ultimately have sq: "of_int s * q = 1" by simp
    have q: "0 < q" by (simp add: q_def pow2_pos)
    from sq q have "x / q = x * of_int s"
      by (metis divide_inverse inverse_unique mult.commute)
    then have "x / q = of_int (i * s)" by (simp add: x_def)
    then have "roundEven (x / q) = i * s" by (simp only: roundEven_whole)
    then have "of_int (roundEven (x / q)) * q = of_int i * (of_int s * q)"
      by simp
    then have y: "of_int (roundEven (x / q)) * q = x" by (simp add: sq x_def)
    have "\<bar>x\<bar> < pow2 1024"
      using \<open>\<bar>x\<bar> \<le> pow2 53\<close> pow2_strict_mono [of 53 1024] by linarith
    with y show ?thesis using x0
      by (simp add: fl_def Let_def e_def [symmetric] q_def [symmetric] x_def [symmetric])
  qed
qed

text \<open>A double bounds what rounds below it.\<close>

lemma exponentOf_mono:
  assumes "x \<noteq> 0" and "\<bar>x\<bar> \<le> \<bar>w\<bar>"
  shows "exponentOf x \<le> exponentOf w"
proof -
  from assms have "0 < \<bar>x\<bar>" and "0 < \<bar>w\<bar>" by auto
  with assms(2) have "log 2 \<bar>x\<bar> \<le> log 2 \<bar>w\<bar>" by simp
  then have "\<lfloor>log 2 \<bar>x\<bar>\<rfloor> \<le> \<lfloor>log 2 \<bar>w\<bar>\<rfloor>" by (rule floor_mono)
  then show ?thesis by (simp add: exponentOf_def)
qed

lemma fl_below_double:
  assumes "fl w = Fin w" and "\<bar>x\<bar> \<le> \<bar>w\<bar>"
  shows "\<exists>y. fl x = Fin y \<and> \<bar>y\<bar> \<le> \<bar>w\<bar>"
proof (cases "x = 0")
  case True
  then show ?thesis by (simp add: fl_def)
next
  case False
  with assms(2) have w0: "w \<noteq> 0" by auto
  define ew where "ew = exponentOf w"
  define qw where "qw = pow2 (ew - 52)"
  define mw where "mw = roundEven (w / qw)"
  define e where "e = exponentOf x"
  define q where "q = pow2 (e - 52)"
  define m where "m = roundEven (x / q)"
  have q: "0 < q" by (simp add: q_def pow2_pos)
  from assms(1) w0 have w: "w = of_int mw * qw" and wfin: "\<bar>w\<bar> < pow2 1024"
    by (auto simp: fl_def Let_def ew_def [symmetric] qw_def [symmetric] mw_def [symmetric]
        split: if_splits)
  have ee: "e \<le> ew" unfolding e_def ew_def using False assms(2) by (rule exponentOf_mono)
  define s :: int where "s = 2 ^ nat (ew - e)"
  have qq: "qw = of_int s * q"
  proof -
    have "qw = pow2 ((ew - e) + (e - 52))" by (simp add: qw_def)
    also have "\<dots> = pow2 (ew - e) * q" unfolding q_def by (rule pow2_add)
    also have "pow2 (ew - e) = of_int s" unfolding s_def using ee by (intro pow2_nat) simp
    finally show ?thesis .
  qed
  define N where "N = \<bar>mw\<bar> * s"
  have s: "0 < s" by (simp add: s_def)
  have N: "\<bar>w\<bar> = of_int N * q"
    using s q by (simp add: w qq N_def abs_mult)
  from assms(2) have "x \<le> of_int N * q" and "- (of_int N * q) \<le> x" unfolding N by linarith+
  with q have "x / q \<le> of_int N" and "of_int (- N) \<le> x / q"
    by (simp_all add: pos_divide_le_eq pos_le_divide_eq)
  then have "m \<le> N" and "- N \<le> m"
    unfolding m_def by (auto intro: roundEven_upper roundEven_lower)
  then have "\<bar>real_of_int m\<bar> \<le> of_int N" by linarith
  with q have b: "\<bar>of_int m * q\<bar> \<le> \<bar>w\<bar>"
    unfolding N by (simp add: abs_mult mult_right_mono)
  with wfin have "fl x = Fin (of_int m * q)"
    using False by (simp add: fl_def Let_def e_def [symmetric] q_def [symmetric] m_def [symmetric])
  with b show ?thesis by blast
qed

text \<open>The value of \<open>fl\<close> where the binary exponent of the argument is known.\<close>

lemma fl_value:
  assumes "pow2 e \<le> \<bar>x\<bar>" and "\<bar>x\<bar> < pow2 (e + 1)" and "- 1022 \<le> e"
    and "roundEven (x / pow2 (e - 52)) = m" and "y = of_int m * pow2 (e - 52)"
    and "\<bar>y\<bar> < pow2 1024"
  shows "fl x = Fin y"
proof -
  from assms(1) pow2_pos [of e] have x: "x \<noteq> 0" by auto
  have "\<lfloor>log 2 \<bar>x\<bar>\<rfloor> = e"
    using assms(1,2) x by (subst floor_log_eq_powr_iff) (simp_all add: pow2_def)
  with assms(3) have "exponentOf x = e" by (simp add: exponentOf_def)
  with x assms(4,5,6) show ?thesis by (simp add: fl_def Let_def)
qed

text \<open>A rounded value is a double: rounding it again changes nothing.\<close>

lemma fl_fixed:
  assumes "fl x = Fin y"
  shows "fl y = Fin y"
proof (cases "y = 0")
  case True
  then show ?thesis by (simp add: fl_def)
next
  case False
  then have x0: "x \<noteq> 0" using assms by (auto simp: fl_def)
  define e where "e = exponentOf x"
  define q where "q = pow2 (e - 52)"
  define m where "m = roundEven (x / q)"
  have q: "0 < q" by (simp add: q_def pow2_pos)
  from assms x0 have y: "y = of_int m * q" and fin: "\<bar>y\<bar> < pow2 1024"
    by (auto simp: fl_def Let_def e_def [symmetric] q_def [symmetric] m_def [symmetric]
        split: if_splits)
  have e: "- 1022 \<le> e" "\<lfloor>log 2 \<bar>x\<bar>\<rfloor> \<le> e" by (simp_all add: e_def exponentOf_def)
  have top: "pow2 (e + 1) = of_int (2 ^ 53) * q"
  proof -
    have "e + 1 = 53 + (e - 52)" by simp
    then have "pow2 (e + 1) = pow2 (53 + (e - 52))" by (rule arg_cong)
    also have "\<dots> = pow2 53 * q" unfolding q_def by (rule pow2_add)
    also have "pow2 53 = of_int (2 ^ 53)" using pow2_nat [of 53] by simp
    finally show ?thesis .
  qed
  have "\<bar>x\<bar> < pow2 (e + 1)"
  proof -
    have "log 2 \<bar>x\<bar> < of_int (e + 1)" using e(2) by linarith
    then have "2 powr (log 2 \<bar>x\<bar>) < 2 powr (of_int (e + 1))" by simp
    with x0 show ?thesis by (simp add: pow2_def)
  qed
  then have "x \<le> of_int (2 ^ 53) * q" and "- (of_int (2 ^ 53) * q) \<le> x"
    unfolding top by linarith+
  with q have "x / q \<le> of_int (2 ^ 53)" and "of_int (- (2 ^ 53)) \<le> x / q"
    by (simp_all add: pos_divide_le_eq pos_le_divide_eq)
  then have m: "m \<le> 2 ^ 53" "- (2 ^ 53) \<le> m"
    unfolding m_def by (auto intro: roundEven_upper roundEven_lower)
  have m0: "m \<noteq> 0" using False y by auto
  have "\<bar>i\<bar> \<le> 2 ^ 53 \<Longrightarrow> i \<noteq> 0 \<Longrightarrow> - 1074 \<le> j \<Longrightarrow> \<bar>of_int i * pow2 j\<bar> < pow2 1024 \<Longrightarrow>
      fl (of_int i * pow2 j) = Fin (of_int i * pow2 j)" for i j
  proof -
    assume i: "\<bar>i\<bar> \<le> 2 ^ 53" "i \<noteq> 0" and j: "- 1074 \<le> j"
      and fin: "\<bar>of_int i * pow2 j\<bar> < pow2 1024"
    define z where "z = of_int i * pow2 j"
    define ez where "ez = exponentOf z"
    define qz where "qz = pow2 (ez - 52)"
    have z0: "z \<noteq> 0" using i(2) pow2_pos [of j] by (simp add: z_def)
    have qz: "0 < qz" by (simp add: qz_def pow2_pos)
    have "\<bar>z\<bar> \<le> pow2 53 * pow2 j"
      using i(1) pow2_pos [of j] pow2_nat [of 53] by (simp add: z_def abs_mult)
    then have "\<bar>z\<bar> \<le> pow2 (j + 53)" using pow2_add [of 53 j] by (simp add: add.commute)
    from floor_log2_le [OF z0 this] j have ez: "ez \<le> j + 53"
      by (simp add: ez_def exponentOf_def)
    have "\<exists>n. z / qz = of_int n"
    proof (cases "ez \<le> j + 52")
      case True
      define s :: int where "s = 2 ^ nat (j + 52 - ez)"
      have "j = (j + 52 - ez) + (ez - 52)" by simp
      then have "pow2 j = pow2 ((j + 52 - ez) + (ez - 52))" by (rule arg_cong)
      also have "\<dots> = pow2 (j + 52 - ez) * qz" unfolding qz_def by (rule pow2_add)
      also have "pow2 (j + 52 - ez) = of_int s" unfolding s_def using True by (intro pow2_nat) simp
      finally have "z / qz = of_int (i * s)" using qz by (simp add: z_def)
      then show ?thesis by blast
    next
      case False
      with ez have ez53: "ez = j + 53" by simp
      with j have "\<lfloor>log 2 \<bar>z\<bar>\<rfloor> = j + 53"
        by (simp add: ez_def exponentOf_def max_def split: if_splits)
      with floor_log2_below [OF z0] have "pow2 (j + 53) \<le> \<bar>z\<bar>" by simp
      with \<open>\<bar>z\<bar> \<le> pow2 (j + 53)\<close> have "\<bar>z\<bar> = pow2 (j + 53)" by linarith
      then have "\<bar>of_int i\<bar> * pow2 j = of_int (2 ^ 53) * pow2 j"
        using pow2_add [of 53 j] pow2_nat [of 53] pow2_pos [of j]
        by (simp add: z_def abs_mult add.commute)
      with pow2_pos [of j] have "\<bar>real_of_int i\<bar> = of_int (2 ^ 53)" by simp
      then have "\<bar>i\<bar> = 2 ^ 53" by linarith
      then have ev: "i = 2 * (i div 2)" by simp presburger
      have "qz = pow2 (1 + j)" by (simp add: qz_def ez53)
      then have "qz = 2 * pow2 j" using pow2_add [of 1 j] by (simp add: pow2_def)
      with pow2_pos [of j] have "z / qz = of_int i / 2" by (simp add: z_def)
      also have "\<dots> = of_int (i div 2)" using ev by (metis nonzero_mult_div_cancel_left of_int_mult of_int_numeral zero_neq_numeral)
      finally show ?thesis by blast
    qed
    then obtain n where n: "z / qz = of_int n" by blast
    then have "roundEven (z / qz) = n" by (simp only: roundEven_whole)
    moreover from n qz have "of_int n * qz = z" by (simp add: field_simps)
    ultimately have "of_int (roundEven (z / qz)) * qz = z" by simp
    with z0 fin show ?thesis
      by (simp add: fl_def Let_def ez_def [symmetric] qz_def [symmetric] z_def [symmetric])
  qed
  from this [of m "e - 52"] m m0 e(1) fin show ?thesis
    unfolding y q_def by simp
qed

subsection \<open>Classes of numbers\<close>

lemma inUnit_simps [simp]:
  "inUnit (Fin r) = (0 \<le> r \<and> r \<le> 1)" "inUnit PInf = False" "inUnit NInf = False"
  "inUnit NaN = False"
  by (simp_all add: inUnit_def)

lemma atLeastZero_simps [simp]:
  "atLeastZero (Fin r) = (0 \<le> r)" "atLeastZero PInf = True" "atLeastZero NInf = False"
  "atLeastZero NaN = False"
  by (simp_all add: atLeastZero_def)

lemma boundedBy_simps [simp]:
  "boundedBy k (Fin r) = (\<bar>r\<bar> \<le> pow2 k)" "boundedBy k PInf = False"
  "boundedBy k NInf = False" "boundedBy k NaN = False"
  by (simp_all add: boundedBy_def)

lemma wholePercent_simps [simp]:
  "wholePercent (Fin r) = (r \<in> \<int> \<and> 0 \<le> r \<and> r \<le> 100)" "wholePercent PInf = False"
  "wholePercent NInf = False" "wholePercent NaN = False"
  by (simp_all add: wholePercent_def)

lemma near_simps [simp]:
  "near c eps (Fin r) = (\<bar>r - c\<bar> \<le> eps)" "near c eps PInf = False" "near c eps NInf = False"
  "near c eps NaN = False"
  by (simp_all add: near_def)

lemma inUnit_Fin: "inUnit x \<Longrightarrow> \<exists>r. x = Fin r \<and> 0 \<le> r \<and> r \<le> 1"
  by (cases x) simp_all

lemma boundedBy_Fin: "boundedBy k x \<Longrightarrow> \<exists>r. x = Fin r \<and> \<bar>r\<bar> \<le> pow2 k"
  by (cases x) simp_all

lemma atLeastZero_cases: "atLeastZero x \<Longrightarrow> x = PInf \<or> (\<exists>r. x = Fin r \<and> 0 \<le> r)"
  by (cases x) simp_all

lemma atLeastZero_not_NaN: "atLeastZero x \<Longrightarrow> x \<noteq> NaN"
  by (auto)

lemma inUnit_atLeastZero: "inUnit x \<Longrightarrow> atLeastZero x"
  by (cases x) (simp_all)

lemma inUnit_boundedBy: "inUnit x \<Longrightarrow> boundedBy 0 x"
  by (cases x) (simp_all add: pow2_0)

lemma boundedBy_mono: "boundedBy j x \<Longrightarrow> j \<le> k \<Longrightarrow> boundedBy k x"
  using pow2_mono [of j k] by (cases x) (auto)

lemma boundedBy_not_NaN: "boundedBy k x \<Longrightarrow> x \<noteq> NaN"
  by (auto)

lemma fl_inUnit: "0 \<le> x \<Longrightarrow> x \<le> 1 \<Longrightarrow> inUnit (fl x)"
  using fl_bounded [of x 0] by (auto simp: pow2_0)

lemma fl_within: "\<bar>x\<bar> \<le> pow2 k \<Longrightarrow> - 1022 \<le> k \<Longrightarrow> k \<le> 1023 \<Longrightarrow> boundedBy k (fl x)"
  using fl_bounded [of x k] by (auto)

lemma fl_atLeastZero: "0 \<le> x \<Longrightarrow> atLeastZero (fl x)"
  using fl_nonneg [of x] by (auto)

lemma num_atLeastZero: "atLeastZero (num n)"
  by (simp add: num_def atLeastZero_def)

text \<open>A literal between two powers of two.\<close>

lemma fl_literal:
  assumes "pow2 j \<le> c" and "c \<le> pow2 k" and "- 1022 \<le> j" and "- 1022 \<le> k" and "k \<le> 1023"
  shows "\<exists>a. fl c = Fin a \<and> pow2 j \<le> a \<and> a \<le> pow2 k"
proof -
  from assms(1) pow2_pos [of j] have "0 < c" by linarith
  with assms(2) have "\<bar>c\<bar> \<le> pow2 k" by simp
  from fl_bounded [OF this assms(4,5)] obtain y where y: "fl c = Fin y" "\<bar>y\<bar> \<le> pow2 k" by auto
  from fl_at_least [OF assms(1,3)] y have "pow2 j \<le> y" by auto
  with y show ?thesis by auto
qed

subsection \<open>The clamps\<close>

lemma clamp01_inUnit: "x \<noteq> NaN \<Longrightarrow> inUnit (clamp01 x)"
  by (cases x) (auto simp: clamp01_def mathMin_def mathMax_def)

lemma clamp01_fixed: "inUnit x \<Longrightarrow> clamp01 x = x"
  by (cases x) (auto simp: clamp01_def mathMin_def mathMax_def)

lemma clamp01_NaN: "clamp01 NaN = NaN"
  by (simp add: clamp01_def mathMin_def mathMax_def)

lemma min_one_inUnit: "atLeastZero x \<Longrightarrow> inUnit (mathMin (Fin 1) x)"
  by (cases x) (auto simp: mathMin_def)

lemma one_minus_inUnit: "inUnit x \<Longrightarrow> inUnit (jsSub (Fin 1) x)"
  by (cases x) (auto simp: jsSub_def intro!: fl_inUnit)

subsection \<open>Sums, products and quotients\<close>

lemma add_atLeastZero: "atLeastZero x \<Longrightarrow> atLeastZero y \<Longrightarrow> atLeastZero (jsAdd x y)"
  by (cases x; cases y) (auto intro!: fl_atLeastZero)

lemma mul_atLeastZero:
  "x = Fin a \<Longrightarrow> 0 < a \<Longrightarrow> atLeastZero y \<Longrightarrow> atLeastZero (jsMul x y)"
  by (cases y) (auto intro!: fl_atLeastZero)

lemma mul_atLeastZero_right:
  "y = Fin a \<Longrightarrow> 0 < a \<Longrightarrow> atLeastZero x \<Longrightarrow> atLeastZero (jsMul x y)"
  by (cases x) (auto intro!: fl_atLeastZero)

lemma mul_finite_atLeastZero:
  "x = Fin a \<Longrightarrow> y = Fin b \<Longrightarrow> 0 \<le> a \<Longrightarrow> 0 \<le> b \<Longrightarrow> atLeastZero (jsMul x y)"
  by (auto intro!: fl_atLeastZero)

lemma div_atLeastZero:
  "atLeastZero x \<Longrightarrow> y = Fin b \<Longrightarrow> 0 < b \<Longrightarrow> atLeastZero (jsDiv x y)"
  by (cases x) (auto intro!: fl_atLeastZero)

lemma max_one_cases:
  "atLeastZero x \<Longrightarrow> mathMax (Fin 1) x = PInf \<or> (\<exists>b. mathMax (Fin 1) x = Fin b \<and> 1 \<le> b)"
  by (cases x) (auto simp: mathMax_def)

lemma div_by_max_one:
  "atLeastZero y \<Longrightarrow> atLeastZero (jsDiv (num n) (mathMax (Fin 1) y))"
  using max_one_cases [of y]
  by (auto simp: num_def intro!: fl_atLeastZero)

lemma square_atLeastZero: "x \<noteq> NaN \<Longrightarrow> atLeastZero (jsMul x x)"
  by (cases x) (auto intro!: fl_atLeastZero)

lemma sub_finite_not_NaN: "x \<noteq> NaN \<Longrightarrow> jsSub x (Fin b) \<noteq> NaN"
  by (cases x) (auto simp: jsSub_def fl_not_NaN)

lemma finite_sub_atLeastZero_not_NaN: "atLeastZero y \<Longrightarrow> jsSub (Fin a) y \<noteq> NaN"
  by (cases y) (auto simp: jsSub_def fl_not_NaN)

lemma abs_atLeastZero: "x \<noteq> NaN \<Longrightarrow> atLeastZero (mathAbs x)"
  by (cases x) (auto)

lemma add_finite_not_NaN: "x \<noteq> NaN \<Longrightarrow> jsAdd x (Fin b) \<noteq> NaN"
  by (cases x) (auto simp: fl_not_NaN)

subsection \<open>Bounds by powers of two\<close>

lemma boundedBy_mul:
  assumes "boundedBy j x" and "boundedBy k y" and "- 1022 \<le> j + k" and "j + k \<le> 1023"
  shows "boundedBy (j + k) (jsMul x y)"
proof -
  from boundedBy_Fin [OF assms(1)] obtain a where a: "x = Fin a" "\<bar>a\<bar> \<le> pow2 j" by auto
  from boundedBy_Fin [OF assms(2)] obtain b where b: "y = Fin b" "\<bar>b\<bar> \<le> pow2 k" by auto
  have "\<bar>a * b\<bar> \<le> pow2 j * pow2 k"
    unfolding abs_mult using a(2) b(2) by (intro mult_mono) auto
  then have "\<bar>a * b\<bar> \<le> pow2 (j + k)" by (simp add: pow2_add)
  from fl_within [OF this assms(3,4)] show ?thesis by (simp add: a b)
qed

lemma boundedBy_add:
  assumes "boundedBy k x" and "boundedBy k y" and "- 1022 \<le> k + 1" and "k + 1 \<le> 1023"
  shows "boundedBy (k + 1) (jsAdd x y)"
proof -
  from boundedBy_Fin [OF assms(1)] obtain a where a: "x = Fin a" "\<bar>a\<bar> \<le> pow2 k" by auto
  from boundedBy_Fin [OF assms(2)] obtain b where b: "y = Fin b" "\<bar>b\<bar> \<le> pow2 k" by auto
  have "pow2 (k + 1) = 2 * pow2 k" using pow2_add [of k 1] by (simp add: pow2_def)
  with a(2) b(2) have "\<bar>a + b\<bar> \<le> pow2 (k + 1)" by linarith
  from fl_within [OF this assms(3,4)] show ?thesis by (simp add: a b)
qed

lemma boundedBy_neg: "boundedBy k x \<Longrightarrow> boundedBy k (jsNeg x)"
  by (cases x) (auto)

lemma boundedBy_sub:
  assumes "boundedBy k x" and "boundedBy k y" and "- 1022 \<le> k + 1" and "k + 1 \<le> 1023"
  shows "boundedBy (k + 1) (jsSub x y)"
  unfolding jsSub_def using assms by (intro boundedBy_add boundedBy_neg)

lemma boundedBy_div:
  assumes "boundedBy k x" and "y = Fin b" and "1 \<le> b" and "- 1022 \<le> k" and "k \<le> 1023"
  shows "boundedBy k (jsDiv x y)"
proof -
  from boundedBy_Fin [OF assms(1)] obtain a where a: "x = Fin a" "\<bar>a\<bar> \<le> pow2 k" by auto
  have "\<bar>a / b\<bar> \<le> \<bar>a\<bar>" using assms(3) by (simp add: divide_le_eq mult_le_cancel_left1)
  with a(2) have "\<bar>a / b\<bar> \<le> pow2 k" by linarith
  from fl_within [OF this assms(4,5)] show ?thesis using assms(2,3) by (simp add: a)
qed

subsection \<open>The literals of the module\<close>

lemma literal_39: "\<exists>a. fl 0.39 = Fin a \<and> pow2 (- 2) \<le> a \<and> a \<le> pow2 (- 1)"
  by (rule fl_literal) (simp_all add: pow2_def powr_neg_numeral powr_neg_one)

lemma literal_118: "\<exists>a. fl 11.8 = Fin a \<and> pow2 3 \<le> a \<and> a \<le> pow2 4"
  by (rule fl_literal) (simp_all add: pow2_def powr_neg_numeral powr_neg_one)

lemma literal_1559: "\<exists>a. fl 15.59 = Fin a \<and> pow2 3 \<le> a \<and> a \<le> pow2 4"
  by (rule fl_literal) (simp_all add: pow2_def powr_neg_numeral powr_neg_one)

lemma literal_6: "\<exists>a. fl 0.6 = Fin a \<and> pow2 (- 1) \<le> a \<and> a \<le> pow2 0"
  by (rule fl_literal) (simp_all add: pow2_def powr_neg_numeral powr_neg_one)

lemma literal_5: "\<exists>a. fl 0.5 = Fin a \<and> pow2 (- 1) \<le> a \<and> a \<le> pow2 (- 1)"
  by (rule fl_literal) (simp_all add: pow2_def powr_neg_numeral powr_neg_one)

lemma literal_2: "\<exists>a. fl 0.2 = Fin a \<and> pow2 (- 3) \<le> a \<and> a \<le> pow2 (- 2)"
  by (rule fl_literal) (simp_all add: pow2_def powr_neg_numeral powr_neg_one)

lemma literal_1: "\<exists>a. fl 0.1 = Fin a \<and> pow2 (- 4) \<le> a \<and> a \<le> pow2 (- 3)"
  by (rule fl_literal) (simp_all add: pow2_def powr_neg_numeral powr_neg_one)

lemma literal_12: "\<exists>a. fl 0.12 = Fin a \<and> pow2 (- 4) \<le> a \<and> a \<le> pow2 (- 3)"
  by (rule fl_literal) (simp_all add: pow2_def powr_neg_numeral powr_neg_one)

lemma literal_02: "\<exists>a. fl 0.02 = Fin a \<and> pow2 (- 6) \<le> a \<and> a \<le> pow2 (- 5)"
  by (rule fl_literal) (simp_all add: pow2_def powr_neg_numeral powr_neg_one)

lemma literal_9: "\<exists>a. fl 0.9 = Fin a \<and> pow2 (- 1) \<le> a \<and> a \<le> pow2 0"
  by (rule fl_literal) (simp_all add: pow2_def powr_neg_numeral powr_neg_one)

lemma literal_28: "\<exists>a. fl 0.28 = Fin a \<and> pow2 (- 2) \<le> a \<and> a \<le> pow2 (- 1)"
  by (rule fl_literal) (simp_all add: pow2_def powr_neg_numeral powr_neg_one)

lemma literal_0004: "\<exists>a. fl 0.0004 = Fin a \<and> pow2 (- 12) \<le> a \<and> a \<le> pow2 (- 11)"
  by (rule fl_literal) (simp_all add: pow2_def powr_neg_numeral powr_neg_one)

lemma literal_18: "\<exists>a. fl 1.8 = Fin a \<and> pow2 0 \<le> a \<and> a \<le> pow2 1"
  by (rule fl_literal) (simp_all add: pow2_def powr_neg_numeral powr_neg_one)

lemma literal_7: "\<exists>a. fl 0.7 = Fin a \<and> pow2 (- 1) \<le> a \<and> a \<le> pow2 0"
  by (rule fl_literal) (simp_all add: pow2_def powr_neg_numeral powr_neg_one)

lemma literal_3: "\<exists>a. fl 0.3 = Fin a \<and> pow2 (- 2) \<le> a \<and> a \<le> pow2 (- 1)"
  by (rule fl_literal) (simp_all add: pow2_def powr_neg_numeral powr_neg_one)

lemma min_atLeastZero: "atLeastZero x \<Longrightarrow> atLeastZero y \<Longrightarrow> atLeastZero (mathMin x y)"
  by (cases x; cases y) (auto simp: mathMin_def)

lemma literal_positive:
  assumes "\<exists>a. fl c = Fin a \<and> pow2 j \<le> a \<and> a \<le> pow2 k"
  shows "\<exists>a. fl c = Fin a \<and> 0 < a"
proof -
  from assms obtain a where "fl c = Fin a" "pow2 j \<le> a" by auto
  with pow2_pos [of j] show ?thesis by (intro exI [of _ a]) auto
qed

lemma literal_times_atLeastZero:
  assumes "\<exists>a. fl c = Fin a \<and> pow2 j \<le> a \<and> a \<le> pow2 k" and "atLeastZero y"
  shows "atLeastZero (jsMul (fl c) y)"
proof -
  from literal_positive [OF assms(1)] obtain a where "fl c = Fin a" "0 < a" by auto
  with assms(2) show ?thesis by (simp only: mul_atLeastZero)
qed

lemma times_literal_atLeastZero:
  assumes "\<exists>a. fl c = Fin a \<and> pow2 j \<le> a \<and> a \<le> pow2 k" and "atLeastZero y"
  shows "atLeastZero (jsMul y (fl c))"
proof -
  from literal_positive [OF assms(1)] obtain a where "fl c = Fin a" "0 < a" by auto
  with assms(2) show ?thesis by (simp only: mul_atLeastZero_right)
qed

lemma literal_atLeastZero:
  assumes "\<exists>a. fl c = Fin a \<and> pow2 j \<le> a \<and> a \<le> pow2 k"
  shows "atLeastZero (fl c)"
  using literal_positive [OF assms] by auto

subsection \<open>The range of each scorer\<close>

lemma count_ratio_atLeastZero: "0 < m \<Longrightarrow> atLeastZero (jsDiv (num n) (num m))"
  by (rule div_atLeastZero [where b = "real m"]) (simp_all add: num_def)

lemma fkGrade_not_NaN: "fkGrade t \<noteq> NaN"
proof -
  have sum: "atLeastZero (jsAdd (jsMul (fl 0.39) (jsDiv (num n) (num s)))
                                (jsMul (fl 11.8) (jsDiv (num y) (num w))))"
    if "0 < s" and "0 < w" for n s y w :: nat
    using that
    by (intro add_atLeastZero literal_times_atLeastZero [OF literal_39]
        literal_times_atLeastZero [OF literal_118] count_ratio_atLeastZero)
  obtain d where d: "fl 15.59 = Fin d" using literal_1559 by auto
  show ?thesis
    unfolding fkGrade_def Let_def d
    by (intro sub_finite_not_NaN atLeastZero_not_NaN sum) simp_all
qed

lemma readability_inUnit: "inUnit (score (readabilityScore t))"
proof -
  have "jsSub (fkGrade t) (Fin 10) \<noteq> NaN"
    using fkGrade_not_NaN by (rule sub_finite_not_NaN)
  then have "atLeastZero (jsDiv (mathAbs (jsSub (fkGrade t) (Fin 10))) (Fin 6))"
    by (intro div_atLeastZero [where b = 6] abs_atLeastZero) simp_all
  then have "inUnit (jsSub (Fin 1) (mathMin (Fin 1)
      (jsDiv (mathAbs (jsSub (fkGrade t) (Fin 10))) (Fin 6))))"
    by (intro one_minus_inUnit min_one_inUnit)
  then show ?thesis
    by (simp add: readabilityScore_def Let_def clamp01_fixed)
qed

lemma repetition_inUnit: "inUnit (repetitionPenaltyScore t)"
proof -
  have "inUnit (jsSub (Fin 1) (mathMin (Fin 1)
      (jsDiv (num r) (mathMax (Fin 1) (jsDiv (num n) (Fin 12))))))" for r n
    by (intro one_minus_inUnit min_one_inUnit div_by_max_one div_atLeastZero [where b = 12]
        num_atLeastZero) simp_all
  then show ?thesis
    by (simp add: repetitionPenaltyScore_def Let_def)
qed

lemma lengthDamp_inUnit:
  "inUnit (mathMin (Fin 1) (jsDiv (mathLog10 (jsAdd (num N) (Fin 10))) (Fin 2)))"
proof -
  have "pow2 3 \<le> real N + 10" by (simp add: pow2_def)
  with fl_at_least [of 3 "real N + 10"]
  have "fl (real N + 10) = PInf \<or> (\<exists>y. fl (real N + 10) = Fin y \<and> pow2 3 \<le> y)"
    by simp
  then have "atLeastZero (mathLog10 (fl (real N + 10)))"
  proof (elim disjE exE conjE)
    assume "fl (real N + 10) = PInf"
    then show ?thesis by simp
  next
    fix y assume y: "fl (real N + 10) = Fin y" "pow2 3 \<le> y"
    then have "1 \<le> y" by (simp add: pow2_def)
    then have "0 \<le> log 10 y" by simp
    with \<open>1 \<le> y\<close> show ?thesis by (simp add: y fl_atLeastZero)
  qed
  then have "atLeastZero (jsDiv (mathLog10 (jsAdd (num N) (Fin 10))) (Fin 2))"
    by (intro div_atLeastZero [where b = 2]) (simp_all add: num_def)
  then show ?thesis by (rule min_one_inUnit)
qed

lemma vocabulary_inUnit: "inUnit (calculateVocabularyRichness st t)"
proof -
  have "inUnit (clamp01 (jsAdd (jsMul (clamp01 (jsAdd (jsMul (fl 0.7) (jsDiv (num u) (num N)))
            (jsMul (fl 0.3) (jsDiv (num h) (mathMax (Fin 1) (num u))))))
          (mathMin (Fin 1) (jsDiv (mathLog10 (jsAdd (num N) (Fin 10))) (Fin 2))))
        (jsMul (fl 0.2) (jsSub (Fin 1)
          (mathMin (Fin 1) (jsDiv (mathLog10 (jsAdd (num N) (Fin 10))) (Fin 2)))))))"
    if "0 < N" for u N h :: nat
  proof -
    have "atLeastZero (jsAdd (jsMul (fl 0.7) (jsDiv (num u) (num N)))
            (jsMul (fl 0.3) (jsDiv (num h) (mathMax (Fin 1) (num u)))))"
      using that
      by (intro add_atLeastZero literal_times_atLeastZero [OF literal_7]
          literal_times_atLeastZero [OF literal_3] count_ratio_atLeastZero div_by_max_one
          num_atLeastZero)
    then have base: "inUnit (clamp01 (jsAdd (jsMul (fl 0.7) (jsDiv (num u) (num N)))
            (jsMul (fl 0.3) (jsDiv (num h) (mathMax (Fin 1) (num u))))))"
      by (intro clamp01_inUnit atLeastZero_not_NaN)
    from inUnit_Fin [OF base] inUnit_Fin [OF lengthDamp_inUnit [of N]]
    have one: "atLeastZero (jsMul (clamp01 (jsAdd (jsMul (fl 0.7) (jsDiv (num u) (num N)))
            (jsMul (fl 0.3) (jsDiv (num h) (mathMax (Fin 1) (num u))))))
          (mathMin (Fin 1) (jsDiv (mathLog10 (jsAdd (num N) (Fin 10))) (Fin 2))))"
      by (auto intro!: fl_atLeastZero)
    have two: "atLeastZero (jsMul (fl 0.2) (jsSub (Fin 1)
          (mathMin (Fin 1) (jsDiv (mathLog10 (jsAdd (num N) (Fin 10))) (Fin 2)))))"
      by (intro literal_times_atLeastZero [OF literal_2] inUnit_atLeastZero one_minus_inUnit
          lengthDamp_inUnit)
    from one two show ?thesis
      by (intro clamp01_inUnit atLeastZero_not_NaN add_atLeastZero)
  qed
  then show ?thesis
    by (simp add: calculateVocabularyRichness_def Let_def)
qed

lemma jaccard_inUnit:
  assumes "finite a" and "finite b"
  shows "inUnit (jaccard a b)"
proof -
  have "card (a \<inter> b) \<le> card (a \<union> b)" using assms by (intro card_mono) auto
  then have "real (card (a \<inter> b)) / real (if card (a \<union> b) = 0 then 1 else card (a \<union> b)) \<le> 1"
    by (simp add: divide_le_eq)
  then have "inUnit (fl (real (card (a \<inter> b))
      / real (if card (a \<union> b) = 0 then 1 else card (a \<union> b))))"
    by (intro fl_inUnit) simp_all
  then show ?thesis by (simp add: jaccard_def Let_def num_def)
qed

lemma adjacentSims_inUnit: "v \<in> set (adjacentSims st sents) \<Longrightarrow> inUnit v"
  by (induction st sents rule: adjacentSims.induct)
     (auto simp: contentSet_def intro: jaccard_inUnit)

lemma adjacentSims_not_empty: "2 \<le> length sents \<Longrightarrow> adjacentSims st sents \<noteq> []"
  by (cases sents; cases "tl sents") auto

lemma sum_atLeastZero:
  assumes "atLeastZero acc" and "\<And>v. v \<in> set xs \<Longrightarrow> atLeastZero (f v)"
  shows "atLeastZero (foldl (\<lambda>acc v. jsAdd acc (f v)) acc xs)"
  using assms by (induction xs arbitrary: acc) (auto intro: add_atLeastZero)

lemma avg_atLeastZero:
  assumes "\<And>v. v \<in> set a \<Longrightarrow> inUnit v"
  shows "atLeastZero (avg a)"
proof (cases "a = []")
  case True
  then show ?thesis by (simp add: avg_def)
next
  case False
  have "atLeastZero (foldl (\<lambda>acc v. jsAdd acc v) (Fin 0) a)"
    using assms by (intro sum_atLeastZero inUnit_atLeastZero) simp_all
  then have "atLeastZero (jsDiv (foldl jsAdd (Fin 0) a) (num (length a)))"
    using False by (intro div_atLeastZero [where b = "real (length a)"]) (simp_all add: num_def)
  with False show ?thesis by (simp add: avg_def)
qed

lemma variance_atLeastZero:
  assumes "sims \<noteq> []" and "\<And>v. v \<in> set sims \<Longrightarrow> inUnit v"
  shows "atLeastZero (variance sims)"
proof -
  have sq: "atLeastZero (jsMul (jsSub v (avg sims)) (jsSub v (avg sims)))"
    if "v \<in> set sims" for v
  proof -
    from inUnit_Fin [OF assms(2) [OF that]] obtain r where "v = Fin r" by auto
    with avg_atLeastZero [of sims] assms(2) have "jsSub v (avg sims) \<noteq> NaN"
      by (simp add: finite_sub_atLeastZero_not_NaN)
    then show ?thesis by (rule square_atLeastZero)
  qed
  have "atLeastZero (foldl (\<lambda>acc v. jsAdd acc (jsMul (jsSub v (avg sims)) (jsSub v (avg sims))))
      (Fin 0) sims)"
    using sq by (intro sum_atLeastZero) simp_all
  then show ?thesis
    unfolding variance_def Let_def using assms(1)
    by (intro div_atLeastZero [where b = "real (length sims)"]) (simp_all add: num_def)
qed

lemma stability_inUnit:
  assumes "sims \<noteq> []" and "\<And>v. v \<in> set sims \<Longrightarrow> inUnit v"
  shows "inUnit (stability sims)"
  unfolding stability_def
  by (intro one_minus_inUnit min_one_inUnit mul_atLeastZero_right [where a = 3]
      variance_atLeastZero assms) simp_all

lemma transScore_inUnit:
  assumes "1 \<le> length sents"
  shows "inUnit (transScore sents)"
proof -
  have "atLeastZero (jsSub (num (length sents)) (Fin 1))"
    using assms by (simp add: jsSub_def num_def fl_atLeastZero)
  then show ?thesis
    unfolding transScore_def by (intro min_one_inUnit div_by_max_one)
qed

lemma structureBonus_atLeastZero: "atLeastZero (structureBonus text sents)"
proof -
  have head: "atLeastZero (if hasHeadings text then fl 0.12 else Fin 0)"
    using literal_atLeastZero [OF literal_12] by simp
  have lines: "atLeastZero (mathMin (fl 0.12) (jsMul (num (countListLines True text)) (fl 0.02)))"
    by (intro min_atLeastZero literal_atLeastZero [OF literal_12]
        times_literal_atLeastZero [OF literal_02] num_atLeastZero)
  have "atLeastZero (jsDiv (num (length sents)) (mathMax (Fin 1) (num (length (paragraphs text)))))"
    by (intro div_by_max_one num_atLeastZero)
  then have "jsSub (jsDiv (num (length sents)) (mathMax (Fin 1) (num (length (paragraphs text)))))
      (Fin 4) \<noteq> NaN"
    by (intro sub_finite_not_NaN atLeastZero_not_NaN)
  then have "atLeastZero (jsDiv (mathAbs (jsSub (jsDiv (num (length sents))
      (mathMax (Fin 1) (num (length (paragraphs text))))) (Fin 4))) (Fin 6))"
    by (intro div_atLeastZero [where b = 6] abs_atLeastZero) simp_all
  then have "inUnit (clamp01 (jsSub (Fin 1) (jsDiv (mathAbs (jsSub (jsDiv (num (length sents))
      (mathMax (Fin 1) (num (length (paragraphs text))))) (Fin 4))) (Fin 6))))"
    by (intro clamp01_inUnit finite_sub_atLeastZero_not_NaN)
  then have paras: "atLeastZero (jsMul (clamp01 (jsSub (Fin 1) (jsDiv (mathAbs (jsSub
      (jsDiv (num (length sents)) (mathMax (Fin 1) (num (length (paragraphs text))))) (Fin 4)))
      (Fin 6)))) (fl 0.1))"
    by (intro times_literal_atLeastZero [OF literal_1] inUnit_atLeastZero)
  from head lines paras show ?thesis
    unfolding structureBonus_def Let_def by (intro add_atLeastZero)
qed

lemma coherence_inUnit: "inUnit (calculateCoherenceScore st text)"
proof (cases "length (sentences text) \<le> 1")
  case True
  then show ?thesis
    by (simp add: calculateCoherenceScore_def Let_def clamp01_inUnit fl_not_NaN)
next
  case False
  define sims where "sims = adjacentSims st (sentences text)"
  have ne: "sims \<noteq> []" unfolding sims_def using False by (intro adjacentSims_not_empty) simp
  have un: "\<And>v. v \<in> set sims \<Longrightarrow> inUnit v" unfolding sims_def by (rule adjacentSims_inUnit)
  have "atLeastZero (jsAdd (jsAdd (jsAdd (jsMul (fl 0.6) (avg sims))
      (jsMul (fl 0.2) (stability sims))) (jsMul (fl 0.1) (transScore (sentences text))))
      (structureBonus text (sentences text)))"
    using False
    by (intro add_atLeastZero literal_times_atLeastZero [OF literal_6]
        literal_times_atLeastZero [OF literal_2] literal_times_atLeastZero [OF literal_1]
        avg_atLeastZero inUnit_atLeastZero stability_inUnit transScore_inUnit
        structureBonus_atLeastZero ne un) simp_all
  then have "inUnit (clamp01 (jsAdd (jsAdd (jsAdd (jsMul (fl 0.6) (avg sims))
      (jsMul (fl 0.2) (stability sims))) (jsMul (fl 0.1) (transScore (sentences text))))
      (structureBonus text (sentences text))))"
    by (intro clamp01_inUnit atLeastZero_not_NaN)
  from inUnit_Fin [OF this] obtain c where c: "clamp01 (jsAdd (jsAdd (jsAdd (jsMul (fl 0.6) (avg sims))
      (jsMul (fl 0.2) (stability sims))) (jsMul (fl 0.1) (transScore (sentences text))))
      (structureBonus text (sentences text))) = Fin c"
    by auto
  have "paraPenalty text \<noteq> NaN" by (simp add: paraPenalty_def fl_not_NaN)
  moreover have "atLeastZero (paraPenalty text)"
    using literal_atLeastZero [OF literal_1] by (simp add: paraPenalty_def)
  ultimately have "jsSub (Fin c) (paraPenalty text) \<noteq> NaN"
    by (intro finite_sub_atLeastZero_not_NaN)
  then have "inUnit (clamp01 (jsSub (Fin c) (paraPenalty text)))"
    by (rule clamp01_inUnit)
  moreover have "calculateCoherenceScore st text = clamp01 (jsSub (clamp01 (jsAdd (jsAdd (jsAdd
      (jsMul (fl 0.6) (avg sims)) (jsMul (fl 0.2) (stability sims)))
      (jsMul (fl 0.1) (transScore (sentences text)))) (structureBonus text (sentences text))))
      (paraPenalty text))"
    using False by (simp only: calculateCoherenceScore_def Let_def sims_def if_False)
  ultimately show ?thesis by (simp only: c)
qed

subsection \<open>The range of the length score\<close>

lemma fl_count: "n \<le> 2 ^ 53 \<Longrightarrow> fl (real n) = Fin (real n)"
  using fl_whole [of "int n"] by simp

lemma lengthReqCount_range: "1 \<le> lengthReqCount prompt \<and> lengthReqCount prompt \<le> 10"
  by (auto simp: lengthReqCount_def Let_def Suc_le_eq)

lemma lengthTarget_value:
  "lengthTarget prompt = Fin (100 + 60 * real (lengthReqCount prompt))"
proof -
  define k where "k = lengthReqCount prompt"
  have k: "1 \<le> k" "k \<le> 10" using lengthReqCount_range [of prompt] by (simp_all add: k_def)
  have "fl (real (60 * k)) = Fin (real (60 * k))" using k by (intro fl_count) simp
  then have m: "jsMul (Fin 60) (num k) = Fin (60 * real k)" by (simp add: num_def)
  have "fl (real (100 + 60 * k)) = Fin (real (100 + 60 * k))" using k by (intro fl_count) simp
  then have a: "jsAdd (Fin 100) (Fin (60 * real k)) = Fin (100 + 60 * real k)" by simp
  show ?thesis
    unfolding lengthTarget_def Let_def k_def [symmetric] m a
    using k by (simp add: mathMin_def mathMax_def)
qed

lemma pow2_numeral: "pow2 (numeral n) = 2 ^ numeral n"
  by (simp add: pow2_def)

lemma pow2_neg_numeral: "pow2 (- numeral n) = 1 / 2 ^ numeral n"
  by (simp add: pow2_def powr_neg_numeral)

lemma pow2_minus_one: "pow2 (- 1) = 1 / 2"
  by (simp add: pow2_def powr_neg_one)

lemma pow2_one: "pow2 1 = 2"
  by (simp add: pow2_def)

lemmas pow2_values = pow2_0 pow2_one pow2_minus_one pow2_numeral pow2_neg_numeral

lemma lengthScoreFor_inUnit:
  assumes t: "pow2 6 \<le> t" "t \<le> pow2 10"
    and len: "length (tokenizeWords text) < 2 ^ 32"
  shows "inUnit (lengthScoreFor text (Fin t))"
proof -
  define N where "N = length (tokenizeWords text)"
  define ratio where "ratio = jsDiv (num N) (Fin t)"
  define sigma where "sigma = mathMin (fl 0.9) (jsAdd (fl 0.28) (jsMul (fl 0.0004) (Fin t)))"
  define score0 where "score0 = mathExp (jsDiv (jsNeg (mathSquare (jsSub ratio (Fin 1))))
      (jsMul (jsMul (Fin 2) sigma) sigma))"
  define score where "score = (if N < 40 then jsMul score0 (jsDiv (num N) (Fin 40)) else score0)"
  define hardMin where "hardMin = mathFloor (jsMul (Fin t) (fl 0.5))"
  define hardMax where "hardMax = mathCeil (jsMul (Fin t) (fl 1.8))"
  define penalty0 where "penalty0 = (if jsLess (num N) hardMin
      then jsDiv (jsSub hardMin (num N)) hardMin else Fin 0)"
  define penalty where "penalty = (if jsLess hardMax (num N)
      then jsDiv (jsSub (num N) hardMax) hardMax else penalty0)"
  define bonus where "bonus = clamp01 (jsDiv (jsDiv (num (length (sentences text)))
      (num (if length (paragraphs text) = 0 then 1 else length (paragraphs text)))) (Fin 6))"
  have t1: "1 \<le> t" "64 \<le> t" "t \<le> 1024" using t by (simp_all add: pow2_numeral)
  have N: "boundedBy 32 (num N)"
    using len by (simp add: num_def N_def pow2_numeral)
  have one: "boundedBy k (Fin 1)" if "0 \<le> k" for k
    using pow2_mono [of 0 k] that by (simp add: pow2_0)

  have ratio: "boundedBy 32 ratio"
    unfolding ratio_def using N t1(1) by (intro boundedBy_div [where b = t]) simp_all
  then have "boundedBy 33 (jsSub ratio (Fin 1))"
    using boundedBy_sub [of 32 ratio "Fin 1"] one [of 32] by simp
  then obtain r where r: "jsSub ratio (Fin 1) = Fin r" "\<bar>r\<bar> \<le> pow2 33"
    using boundedBy_Fin by blast
  have "\<bar>r * r\<bar> \<le> pow2 33 * pow2 33"
    unfolding abs_mult using r(2) by (intro mult_mono) auto
  then have "\<bar>r * r\<bar> \<le> pow2 66" using pow2_add [of 33 33] by simp
  from fl_bounded [OF this] obtain v where v: "fl (r * r) = Fin v" "\<bar>v\<bar> \<le> pow2 66" "0 \<le> v"
    by auto

  obtain c4 where c4: "fl 0.0004 = Fin c4" "pow2 (- 12) \<le> c4" "c4 \<le> pow2 (- 11)"
    using literal_0004 by auto
  have "pow2 (- 6) \<le> c4 * t" "c4 * t \<le> pow2 (- 1)"
  proof -
    have "pow2 (- 12) * pow2 6 \<le> c4 * t"
      using c4(2) t(1) pow2_pos [of "- 12"] pow2_pos [of 6] by (intro mult_mono) auto
    then show "pow2 (- 6) \<le> c4 * t" using pow2_add [of "- 12" 6] by simp
    have "c4 * t \<le> pow2 (- 11) * pow2 10"
      using c4 t pow2_pos [of "- 12"] pow2_pos [of 6] by (intro mult_mono) auto
    then show "c4 * t \<le> pow2 (- 1)" using pow2_add [of "- 11" 10] by simp
  qed
  from fl_literal [OF this] obtain p where p: "fl (c4 * t) = Fin p" "pow2 (- 6) \<le> p" "p \<le> pow2 (- 1)"
    by auto
  obtain c28 where c28: "fl 0.28 = Fin c28" "pow2 (- 2) \<le> c28" "c28 \<le> pow2 (- 1)"
    using literal_28 by auto
  have "pow2 (- 2) \<le> c28 + p" "c28 + p \<le> pow2 0"
    using c28 p by (simp_all add: pow2_values)
  from fl_literal [OF this] obtain s1 where s1: "fl (c28 + p) = Fin s1" "pow2 (- 2) \<le> s1" "s1 \<le> pow2 0"
    by auto
  obtain c9 where c9: "fl 0.9 = Fin c9" "pow2 (- 1) \<le> c9" "c9 \<le> pow2 0"
    using literal_9 by auto
  have "pow2 (- 2) \<le> pow2 (- 1)" by (intro pow2_mono) simp
  with c9 s1 obtain s where s: "sigma = Fin s" "pow2 (- 2) \<le> s" "s \<le> pow2 0"
    unfolding sigma_def c4 c28 by (cases "s1 < c9") (auto simp: p s1 c9 mathMin_def)
  have "pow2 (- 1) \<le> 2 * s" "2 * s \<le> pow2 1"
    using s by (simp_all add: pow2_values)
  from fl_literal [OF this] obtain u where u: "fl (2 * s) = Fin u" "pow2 (- 1) \<le> u" "u \<le> pow2 1"
    by auto
  have "pow2 (- 3) \<le> u * s" "u * s \<le> pow2 1"
  proof -
    have "pow2 (- 1) * pow2 (- 2) \<le> u * s"
      using u s pow2_pos [of "- 1"] pow2_pos [of "- 2"] by (intro mult_mono) auto
    then show "pow2 (- 3) \<le> u * s" using pow2_add [of "- 1" "- 2"] by simp
    have "u * s \<le> pow2 1 * pow2 0"
      using u s pow2_pos [of "- 1"] pow2_pos [of "- 2"] by (intro mult_mono) auto
    then show "u * s \<le> pow2 1" by (simp add: pow2_0)
  qed
  from fl_literal [OF this] obtain d where d: "fl (u * s) = Fin d" "pow2 (- 3) \<le> d" "d \<le> pow2 1"
    by auto
  have den: "jsMul (jsMul (Fin 2) sigma) sigma = Fin d" by (simp add: s u d)
  have dpos: "0 < d" using d(2) pow2_pos [of "- 3"] by linarith

  have q: "\<bar>- v / d\<bar> \<le> pow2 69"
  proof -
    have "v / d \<le> pow2 66 / pow2 (- 3)"
      using v d dpos pow2_pos [of "- 3"] by (intro frac_le) auto
    also have "\<dots> = pow2 69"
      using pow2_add [of 69 "- 3"] pow2_pos [of "- 3"] by (simp add: field_simps)
    finally show ?thesis using v(3) dpos by simp
  qed
  from fl_bounded [OF q] obtain z where z: "fl (- v / d) = Fin z" "z \<le> 0"
    using v(3) dpos by (auto simp: divide_le_0_iff)
  have score0: "inUnit score0"
    unfolding score0_def r den using dpos z by (simp add: v fl_inUnit)
  have score: "inUnit score"
  proof (cases "N < 40")
    case True
    then have "inUnit (jsDiv (num N) (Fin 40))" by (simp add: num_def fl_inUnit)
    from inUnit_Fin [OF this] inUnit_Fin [OF score0] show ?thesis
      unfolding score_def using True by (auto intro!: fl_inUnit mult_le_one)
  next
    case False
    with score0 show ?thesis by (simp add: score_def)
  qed

  obtain c5 where c5: "fl 0.5 = Fin c5" "pow2 (- 1) \<le> c5" "c5 \<le> pow2 (- 1)"
    using literal_5 by auto
  have "pow2 5 \<le> t * c5" "t * c5 \<le> pow2 9"
  proof -
    have "pow2 6 * pow2 (- 1) \<le> t * c5"
      using c5 t pow2_pos [of 6] pow2_pos [of "- 1"] by (intro mult_mono) auto
    then show "pow2 5 \<le> t * c5" using pow2_add [of 6 "- 1"] by simp
    have "t * c5 \<le> pow2 10 * pow2 (- 1)"
      using c5 t pow2_pos [of 6] pow2_pos [of "- 1"] by (intro mult_mono) auto
    then show "t * c5 \<le> pow2 9" using pow2_add [of 10 "- 1"] by simp
  qed
  from fl_literal [OF this] obtain h0 where h0: "fl (t * c5) = Fin h0" "pow2 5 \<le> h0" "h0 \<le> pow2 9"
    by auto
  define hm :: real where "hm = of_int \<lfloor>h0\<rfloor>"
  have hm: "hardMin = Fin hm" "1 \<le> hm" "\<bar>hm\<bar> \<le> pow2 32"
  proof -
    show "hardMin = Fin hm" unfolding hardMin_def c5 by (simp add: h0 hm_def)
    have "32 \<le> h0" "h0 \<le> 512" using h0 by (simp_all add: pow2_numeral)
    then have "32 \<le> \<lfloor>h0\<rfloor>" "\<lfloor>h0\<rfloor> \<le> 512" by (simp_all add: le_floor_iff floor_le_iff)
    then show "1 \<le> hm" "\<bar>hm\<bar> \<le> pow2 32" by (simp_all add: hm_def pow2_numeral)
  qed
  obtain c18 where c18: "fl 1.8 = Fin c18" "pow2 0 \<le> c18" "c18 \<le> pow2 1"
    using literal_18 by auto
  have "pow2 6 \<le> t * c18" "t * c18 \<le> pow2 11"
  proof -
    have "pow2 6 * pow2 0 \<le> t * c18"
      using c18 t pow2_pos [of 6] pow2_pos [of 0] by (intro mult_mono) auto
    then show "pow2 6 \<le> t * c18" by (simp add: pow2_0)
    have "t * c18 \<le> pow2 10 * pow2 1"
      using c18 t pow2_pos [of 6] pow2_pos [of 0] by (intro mult_mono) auto
    then show "t * c18 \<le> pow2 11" using pow2_add [of 10 1] by simp
  qed
  from fl_literal [OF this] obtain x0 where x0: "fl (t * c18) = Fin x0" "pow2 6 \<le> x0" "x0 \<le> pow2 11"
    by auto
  define hx :: real where "hx = of_int \<lceil>x0\<rceil>"
  have hx: "hardMax = Fin hx" "1 \<le> hx" "\<bar>hx\<bar> \<le> pow2 32"
  proof -
    show "hardMax = Fin hx" unfolding hardMax_def c18 by (simp add: x0 hx_def)
    have "64 \<le> x0" "x0 \<le> 2048" using x0 by (simp_all add: pow2_numeral)
    then have "64 \<le> \<lceil>x0\<rceil>" "\<lceil>x0\<rceil> \<le> 2048" by (simp_all add: le_ceiling_iff ceiling_le_iff)
    then show "1 \<le> hx" "\<bar>hx\<bar> \<le> pow2 32" by (simp_all add: hx_def pow2_numeral)
  qed
  have under: "boundedBy 33 (jsDiv (jsSub hardMin (num N)) hardMin)"
    using boundedBy_sub [of 32 hardMin "num N"] N hm
    by (intro boundedBy_div [where b = hm]) simp_all
  have over: "boundedBy 33 (jsDiv (jsSub (num N) hardMax) hardMax)"
    using boundedBy_sub [of 32 "num N" hardMax] N hx
    by (intro boundedBy_div [where b = hx]) simp_all
  have penalty: "boundedBy 33 penalty"
    unfolding penalty_def penalty0_def using under over pow2_pos [of 33]
    by (simp add: less_imp_le)
  obtain c6 where c6: "fl 0.6 = Fin c6" "pow2 (- 1) \<le> c6" "c6 \<le> pow2 0"
    using literal_6 by auto
  have "boundedBy 0 (fl 0.6)" using c6 pow2_pos [of "- 1"] by simp
  from boundedBy_mul [OF this penalty] have "boundedBy 33 (jsMul (fl 0.6) penalty)" by simp
  with boundedBy_sub [of 33 "Fin 1" "jsMul (fl 0.6) penalty"] one [of 33]
  have A: "boundedBy 34 (jsSub (Fin 1) (jsMul (fl 0.6) penalty))" by simp

  have "atLeastZero (jsDiv (jsDiv (num (length (sentences text)))
      (num (if length (paragraphs text) = 0 then 1 else length (paragraphs text)))) (Fin 6))"
    by (intro div_atLeastZero [where b = 6] count_ratio_atLeastZero) simp_all
  then have bonus: "inUnit bonus"
    unfolding bonus_def by (intro clamp01_inUnit atLeastZero_not_NaN)
  obtain c1 where c1: "fl 0.1 = Fin c1" "pow2 (- 4) \<le> c1" "c1 \<le> pow2 (- 3)"
    using literal_1 by auto
  have "pow2 (- 3) \<le> pow2 0" by (intro pow2_mono) simp
  with c1 pow2_pos [of "- 4"] have "boundedBy 0 (fl 0.1)" by simp
  from boundedBy_mul [OF this inUnit_boundedBy [OF bonus]]
  have "boundedBy 0 (jsMul (fl 0.1) bonus)" by simp
  moreover have "boundedBy 0 (fl 0.9)" using c9 pow2_pos [of "- 1"] by simp
  ultimately have B: "boundedBy 1 (jsAdd (fl 0.9) (jsMul (fl 0.1) bonus))"
    using boundedBy_add [of 0 "fl 0.9" "jsMul (fl 0.1) bonus"] by simp

  from boundedBy_mul [OF inUnit_boundedBy [OF score] A]
  have "boundedBy 34 (jsMul score (jsSub (Fin 1) (jsMul (fl 0.6) penalty)))" by simp
  from boundedBy_mul [OF this B]
  have "boundedBy 35 (jsMul (jsMul score (jsSub (Fin 1) (jsMul (fl 0.6) penalty)))
      (jsAdd (fl 0.9) (jsMul (fl 0.1) bonus)))"
    by simp
  then have "inUnit (clamp01 (jsMul (jsMul score (jsSub (Fin 1) (jsMul (fl 0.6) penalty)))
      (jsAdd (fl 0.9) (jsMul (fl 0.1) bonus))))"
    by (intro clamp01_inUnit boundedBy_not_NaN)
  moreover have "lengthScoreFor text (Fin t) =
      clamp01 (jsMul (jsMul score (jsSub (Fin 1) (jsMul (fl 0.6) penalty)))
        (jsAdd (fl 0.9) (jsMul (fl 0.1) bonus)))"
    by (simp only: lengthScoreFor_def Let_def N_def ratio_def sigma_def score0_def score_def
        hardMin_def hardMax_def penalty0_def penalty_def bonus_def)
  ultimately show ?thesis by simp
qed

lemma length_inUnit:
  assumes "length (tokenizeWords text) < 2 ^ 32"
  shows "inUnit (calculateLengthScore text prompt)"
proof (cases "length (tokenizeWords text) = 0")
  case True
  then show ?thesis by (simp add: calculateLengthScore_def)
next
  case False
  have "pow2 6 \<le> 100 + 60 * real (lengthReqCount prompt)"
    and "100 + 60 * real (lengthReqCount prompt) \<le> pow2 10"
    using lengthReqCount_range [of prompt] by (simp_all add: pow2_numeral)
  from lengthScoreFor_inUnit [OF this assms] False show ?thesis
    by (simp add: calculateLengthScore_def Let_def lengthTarget_value)
qed

subsection \<open>The aggregate\<close>

lemma jsMul_NaN_right: "jsMul x NaN = NaN"
  by (cases x) simp_all

lemma jsAdd_NaN_right: "jsAdd x NaN = NaN"
  by (cases x) simp_all

lemma clamp0to100_NaN: "clamp0to100 NaN = NaN"
  by (simp add: clamp0to100_def mathMin_def mathMax_def)

lemma round_clamp_whole: "x \<noteq> NaN \<Longrightarrow> wholePercent (clamp0to100 (mathRound x))"
  by (cases x) (auto simp: clamp0to100_def mathMin_def mathMax_def)

lemma times_hundred_not_NaN: "x \<noteq> NaN \<Longrightarrow> jsMul x (Fin 100) \<noteq> NaN"
  by (cases x) (auto simp: fl_not_NaN)

lemma inUnit_times_double:
  assumes "inUnit s" and "finiteDouble v"
  shows "\<exists>r. jsMul s (toNumber v) = Fin r"
proof -
  from inUnit_Fin [OF assms(1)] obtain a where a: "s = Fin a" "0 \<le> a" "a \<le> 1" by auto
  from assms(2) obtain w where w: "v = Number (Fin w)" "fl w = Fin w"
    by (auto simp: finiteDouble_def split: jsvalue.splits jsnum.splits)
  have "\<bar>a * w\<bar> \<le> \<bar>w\<bar>" using a by (simp add: abs_mult mult_left_le_one_le)
  from fl_below_double [OF w(2) this] show ?thesis by (auto simp: a w)
qed

lemma small_literal_finite: "\<bar>c\<bar> \<le> 1 \<Longrightarrow> finiteDouble (Number (fl c))"
proof -
  assume "\<bar>c\<bar> \<le> 1"
  then have "\<bar>c\<bar> \<le> pow2 0" by (simp add: pow2_0)
  from fl_bounded [OF this] obtain y where y: "fl c = Fin y" by auto
  from fl_fixed [OF this] y show ?thesis by (simp add: finiteDouble_def)
qed

lemma default_weights_finite: "finiteDouble (DEFAULT_WEIGHTS loaded k)"
  by (cases k) (simp_all add: loaded_def small_literal_finite)

lemma weighted_not_NaN:
  assumes "length (tokenizeWords response) < 2 ^ 32" and "\<And>k. finiteDouble (w k)"
  shows "weighted st response prompt w \<noteq> NaN"
proof -
  obtain c where c: "jsMul (calculateCoherenceScore st response) (toNumber (w Coherence)) = Fin c"
    using inUnit_times_double [OF coherence_inUnit assms(2)] by blast
  obtain l where l: "jsMul (calculateLengthScore response prompt) (toNumber (w Length)) = Fin l"
    using inUnit_times_double [OF length_inUnit [OF assms(1)] assms(2)] by blast
  obtain v where v: "jsMul (calculateVocabularyRichness st response) (toNumber (w Vocab)) = Fin v"
    using inUnit_times_double [OF vocabulary_inUnit assms(2)] by blast
  obtain r where r: "jsMul (repetitionPenaltyScore response) (toNumber (w Repetition)) = Fin r"
    using inUnit_times_double [OF repetition_inUnit assms(2)] by blast
  obtain d where d: "jsMul (score (readabilityScore response)) (toNumber (w Readability)) = Fin d"
    using inUnit_times_double [OF readability_inUnit assms(2)] by blast
  show ?thesis
    unfolding weighted_def c l v r d
    by (intro add_finite_not_NaN) (simp add: fl_not_NaN)
qed

text \<open>
  C1, as stated, fails. With the weight NaN for coherence the overall score is NaN, for any
  response; and with the weight Infinity for length and an empty response, whose length
  score is 0, it is NaN again.
\<close>

theorem overall_score_NaN:
  "overallScore (fst (calculateMetrics (js ''Hello.'') (js ''Write a poem'')
       [Coherence \<mapsto> Number NaN] loaded)) = NaN
   \<and> \<not> wholePercent (overallScore (fst (calculateMetrics (js ''Hello.'') (js ''Write a poem'')
       [Coherence \<mapsto> Number NaN] loaded)))
   \<and> overallScore (fst (calculateMetrics [] (js ''Write a poem'')
       [Length \<mapsto> Number PInf] loaded)) = NaN"
proof -
  have empty: "tokenizeWords [] = []"
    by (simp add: tokenizeWords_def normalizeText_def toLowerCase_def nonEmpty_def)
  have a: "overallScore (fst (calculateMetrics (js ''Hello.'') (js ''Write a poem'')
       [Coherence \<mapsto> Number NaN] loaded)) = NaN"
    by (simp add: calculateMetrics_def Let_def weighted_def spread_def jsMul_NaN_right
        clamp0to100_NaN)
  have b: "overallScore (fst (calculateMetrics [] (js ''Write a poem'')
       [Length \<mapsto> Number PInf] loaded)) = NaN"
    by (simp add: calculateMetrics_def Let_def weighted_def spread_def calculateLengthScore_def
        empty jsAdd_NaN_right clamp0to100_NaN)
  from a b show ?thesis by simp
qed

text \<open>
  C1, amended: for every response of fewer than \<open>2^32\<close> word tokens (no array of JavaScript
  is longer), every prompt and every partial weight map, each of the five sub-scores of
  the result lies in the closed interval from 0 to 1; and when each of the five weights in
  effect, the override or else the default, is a finite number, the overall score is a
  whole number in the closed interval from 0 to 100.
\<close>

theorem scores_in_range:
  assumes "length (tokenizeWords response) < 2 ^ 32"
  shows "inUnit (coherenceScore (fst (calculateMetrics response prompt weights st)))
   \<and> inUnit (lengthScore (fst (calculateMetrics response prompt weights st)))
   \<and> inUnit (vocabularyRichnessScore (fst (calculateMetrics response prompt weights st)))
   \<and> inUnit (repetitionPenalty (fst (calculateMetrics response prompt weights st)))
   \<and> inUnit (readabilityScore_field (fst (calculateMetrics response prompt weights st)))
   \<and> ((\<forall>k. finiteDouble (spread (DEFAULT_WEIGHTS st) weights k)) \<longrightarrow>
        wholePercent (overallScore (fst (calculateMetrics response prompt weights st))))"
proof -
  have sub: "inUnit (clamp01 x)" if "inUnit x" for x
    using that by (simp add: clamp01_fixed)
  have overall: "wholePercent (overallScore (fst (calculateMetrics response prompt weights st)))"
    if "\<forall>k. finiteDouble (spread (DEFAULT_WEIGHTS st) weights k)"
  proof -
    from that have "weighted st response prompt (spread (DEFAULT_WEIGHTS st) weights) \<noteq> NaN"
      by (intro weighted_not_NaN assms) simp
    then show ?thesis
      by (simp add: calculateMetrics_def Let_def round_clamp_whole times_hundred_not_NaN)
  qed
  show ?thesis
    using overall
    by (simp add: calculateMetrics_def Let_def sub coherence_inUnit length_inUnit [OF assms]
        vocabulary_inUnit repetition_inUnit readability_inUnit)
qed

theorem scores_in_range_witness:
  "length (tokenizeWords (js ''Hello.'')) < 2 ^ 32
   \<and> (\<forall>k. finiteDouble (spread (DEFAULT_WEIGHTS loaded) [Coherence \<mapsto> Number (Fin 1)] k))
   \<and> inUnit (coherenceScore (fst (calculateMetrics (js ''Hello.'') (js ''Write a poem'')
        [Coherence \<mapsto> Number (Fin 1)] loaded)))
   \<and> inUnit (lengthScore (fst (calculateMetrics (js ''Hello.'') (js ''Write a poem'')
        [Coherence \<mapsto> Number (Fin 1)] loaded)))
   \<and> wholePercent (overallScore (fst (calculateMetrics (js ''Hello.'') (js ''Write a poem'')
        [Coherence \<mapsto> Number (Fin 1)] loaded)))"
proof -
  have one: "length (tokenizeWords (js ''Hello.'')) = 1" by code_simp
  then have h: "length (tokenizeWords (js ''Hello.'')) < 2 ^ 32" by simp
  have "finiteDouble (Number (Fin 1))" using fl_whole [of 1] by (simp add: finiteDouble_def)
  then have f: "\<forall>k. finiteDouble (spread (DEFAULT_WEIGHTS loaded) [Coherence \<mapsto> Number (Fin 1)] k)"
    using default_weights_finite by (simp add: spread_def)
  from scores_in_range [OF h, of "js ''Write a poem''" "[Coherence \<mapsto> Number (Fin 1)]" loaded] h f
  show ?thesis by blast
qed

text \<open>
  C2: the weights in effect are the default table with exactly the keys of the overrides
  replaced, and nothing is normalised; the overall score is the sum of the five scorer
  results, each times its weight, added from left to right, times 100, rounded by
  \<^verbatim>\<open>Math.round\<close> and clamped to the interval from 0 to 100; the sub-scores returned are
  those same scorer results, clamped.
\<close>

theorem calculateMetrics_overall:
  "(let w = (\<lambda>k. case overrides k of
                    Some v \<Rightarrow> v
                  | None \<Rightarrow> (case k of Coherence \<Rightarrow> Number (fl 0.3) | Length \<Rightarrow> Number (fl 0.2)
                             | Vocab \<Rightarrow> Number (fl 0.25) | Repetition \<Rightarrow> Number (fl 0.1)
                             | Readability \<Rightarrow> Number (fl 0.15)));
        coherence = calculateCoherenceScore loaded response;
        length' = calculateLengthScore response prompt;
        vocab = calculateVocabularyRichness loaded response;
        repetition = repetitionPenaltyScore response;
        readability = score (readabilityScore response);
        m = fst (calculateMetrics response prompt overrides loaded)
    in spread (DEFAULT_WEIGHTS loaded) overrides = w
       \<and> overallScore m =
           mathMax (Fin 0) (mathMin (Fin 100) (mathRound (jsMul
             (jsAdd (jsAdd (jsAdd (jsAdd
                (jsMul coherence (toNumber (w Coherence)))
                (jsMul length' (toNumber (w Length))))
                (jsMul vocab (toNumber (w Vocab))))
                (jsMul repetition (toNumber (w Repetition))))
                (jsMul readability (toNumber (w Readability))))
             (Fin 100))))
       \<and> coherenceScore m = clamp01 coherence
       \<and> lengthScore m = clamp01 length'
       \<and> vocabularyRichnessScore m = clamp01 vocab
       \<and> repetitionPenalty m = clamp01 repetition
       \<and> readabilityScore_field m = clamp01 readability)"
proof -
  have w: "spread (DEFAULT_WEIGHTS loaded) overrides =
      (\<lambda>k. case overrides k of
              Some v \<Rightarrow> v
            | None \<Rightarrow> (case k of Coherence \<Rightarrow> Number (fl 0.3) | Length \<Rightarrow> Number (fl 0.2)
                       | Vocab \<Rightarrow> Number (fl 0.25) | Repetition \<Rightarrow> Number (fl 0.1)
                       | Readability \<Rightarrow> Number (fl 0.15)))"
    by (rule ext) (simp add: spread_def loaded_def split: option.splits WeightKey.splits)
  have o: "overallScore (fst (calculateMetrics response prompt overrides loaded)) =
      mathMax (Fin 0) (mathMin (Fin 100) (mathRound (jsMul
        (weighted loaded response prompt (spread (DEFAULT_WEIGHTS loaded) overrides)) (Fin 100))))"
    by (simp add: calculateMetrics_def Let_def clamp0to100_def)
  show ?thesis
    unfolding Let_def o weighted_def
    by (intro conjI) (rule w, simp only: w, simp_all add: calculateMetrics_def Let_def)
qed

text \<open>
  C3: a call leaves the objects of the module as it found them, so the same arguments give
  the same result again, also after any other call in between. Nothing else outlasts a
  call: each regular expression is a fresh literal, and the module has no cache.
\<close>

theorem calculateMetrics_deterministic:
  "snd (calculateMetrics response prompt weights st) = st
   \<and> fst (calculateMetrics response prompt weights
            (snd (calculateMetrics response' prompt' weights' st)))
       = fst (calculateMetrics response prompt weights st)"
  by (simp add: calculateMetrics_def Let_def)

text \<open>
  C10: the weights reach the overall score only. For two weight maps the results agree on
  the five sub-scores and on every entry of the diagnostics, so they are equal once the
  overall score of one is written into the other.
\<close>

theorem calculateMetrics_weights_frame:
  "coherenceScore (fst (calculateMetrics response prompt w1 st))
       = coherenceScore (fst (calculateMetrics response prompt w2 st))
   \<and> lengthScore (fst (calculateMetrics response prompt w1 st))
       = lengthScore (fst (calculateMetrics response prompt w2 st))
   \<and> vocabularyRichnessScore (fst (calculateMetrics response prompt w1 st))
       = vocabularyRichnessScore (fst (calculateMetrics response prompt w2 st))
   \<and> repetitionPenalty (fst (calculateMetrics response prompt w1 st))
       = repetitionPenalty (fst (calculateMetrics response prompt w2 st))
   \<and> readabilityScore_field (fst (calculateMetrics response prompt w1 st))
       = readabilityScore_field (fst (calculateMetrics response prompt w2 st))
   \<and> sentenceCount (details (fst (calculateMetrics response prompt w1 st)))
       = sentenceCount (details (fst (calculateMetrics response prompt w2 st)))
   \<and> wordCount (details (fst (calculateMetrics response prompt w1 st)))
       = wordCount (details (fst (calculateMetrics response prompt w2 st)))
   \<and> requirements (details (fst (calculateMetrics response prompt w1 st)))
       = requirements (details (fst (calculateMetrics response prompt w2 st)))
   \<and> fkGrade_field (details (fst (calculateMetrics response prompt w1 st)))
       = fkGrade_field (details (fst (calculateMetrics response prompt w2 st)))
   \<and> fst (calculateMetrics response prompt w1 st)
       = (fst (calculateMetrics response prompt w2 st))
           \<lparr>overallScore := overallScore (fst (calculateMetrics response prompt w1 st))\<rparr>"
  by (simp add: calculateMetrics_def Let_def)

subsection \<open>The two copies of the module\<close>

text \<open>
  C4, as stated, fails: the two copies return different diagnostics, since the entry
  \<^verbatim>\<open>requirements\<close> is a string in one and an array in the other.
\<close>

theorem copies_differ:
  "requirements (details (fst (calculateMetrics (js ''Hello.'') (js ''Write a poem'') Map.empty loaded)))
     = Text (js ''Write a poem'')
   \<and> requirements (details (fst (calculateMetrics_copy (js ''Hello.'') (js ''Write a poem'') Map.empty loaded)))
     = Items [js ''Write a poem'']
   \<and> details (fst (calculateMetrics (js ''Hello.'') (js ''Write a poem'') Map.empty loaded))
     \<noteq> details (fst (calculateMetrics_copy (js ''Hello.'') (js ''Write a poem'') Map.empty loaded))
   \<and> fst (calculateMetrics (js ''Hello.'') (js ''Write a poem'') Map.empty loaded)
     \<noteq> fst (calculateMetrics_copy (js ''Hello.'') (js ''Write a poem'') Map.empty loaded)"
proof -
  have e: "extractRequirements (js ''Write a poem'') = [js ''Write a poem'']"
    by code_simp
  have a: "requirements (details (fst (calculateMetrics (js ''Hello.'') (js ''Write a poem'') Map.empty loaded)))
      = Text (js ''Write a poem'')"
    by (simp add: calculateMetrics_def Let_def e)
  have b: "requirements (details (fst (calculateMetrics_copy (js ''Hello.'') (js ''Write a poem'') Map.empty loaded)))
      = Items [js ''Write a poem'']"
    by (simp add: calculateMetrics_copy_def Let_def e)
  from a b have c: "details (fst (calculateMetrics (js ''Hello.'') (js ''Write a poem'') Map.empty loaded))
      \<noteq> details (fst (calculateMetrics_copy (js ''Hello.'') (js ''Write a poem'') Map.empty loaded))"
    by (metis DetailValue.distinct(1))
  then have "fst (calculateMetrics (js ''Hello.'') (js ''Write a poem'') Map.empty loaded)
      \<noteq> fst (calculateMetrics_copy (js ''Hello.'') (js ''Write a poem'') Map.empty loaded)"
    by metis
  with a b c show ?thesis by blast
qed

text \<open>
  C4, amended: the two copies return the same five sub-scores, the same overall score and
  the same sentence count, word count and grade in the diagnostics; the entry
  \<^verbatim>\<open>requirements\<close> is the list of requirements in the second copy, and that list joined
  with a comma and a space in \<^verbatim>\<open>src/app/lib/metrics.ts\<close>.
\<close>

theorem copies_agree_up_to_requirements:
  "coherenceScore (fst (calculateMetrics response prompt weights st))
       = coherenceScore (fst (calculateMetrics_copy response prompt weights st))
   \<and> lengthScore (fst (calculateMetrics response prompt weights st))
       = lengthScore (fst (calculateMetrics_copy response prompt weights st))
   \<and> vocabularyRichnessScore (fst (calculateMetrics response prompt weights st))
       = vocabularyRichnessScore (fst (calculateMetrics_copy response prompt weights st))
   \<and> repetitionPenalty (fst (calculateMetrics response prompt weights st))
       = repetitionPenalty (fst (calculateMetrics_copy response prompt weights st))
   \<and> readabilityScore_field (fst (calculateMetrics response prompt weights st))
       = readabilityScore_field (fst (calculateMetrics_copy response prompt weights st))
   \<and> overallScore (fst (calculateMetrics response prompt weights st))
       = overallScore (fst (calculateMetrics_copy response prompt weights st))
   \<and> sentenceCount (details (fst (calculateMetrics response prompt weights st)))
       = sentenceCount (details (fst (calculateMetrics_copy response prompt weights st)))
   \<and> wordCount (details (fst (calculateMetrics response prompt weights st)))
       = wordCount (details (fst (calculateMetrics_copy response prompt weights st)))
   \<and> fkGrade_field (details (fst (calculateMetrics response prompt weights st)))
       = fkGrade_field (details (fst (calculateMetrics_copy response prompt weights st)))
   \<and> requirements (details (fst (calculateMetrics_copy response prompt weights st)))
       = Items (extractRequirements prompt)
   \<and> requirements (details (fst (calculateMetrics response prompt weights st)))
       = Text (joinWith (js '', '') (extractRequirements prompt))"
  by (simp add: calculateMetrics_def calculateMetrics_copy_def Let_def)

subsection \<open>Single scorers\<close>

lemma tokenizeWords_empty: "tokenizeWords [] = []"
  by (simp add: tokenizeWords_def normalizeText_def toLowerCase_def nonEmpty_def)

lemma clamp01_zero: "clamp01 (Fin 0) = Fin 0"
  by (simp add: clamp01_def mathMin_def mathMax_def)

lemma clamp01_one: "clamp01 (Fin 1) = Fin 1"
  by (simp add: clamp01_def mathMin_def mathMax_def)

text \<open>
  C5: for every prompt (and every weight map), the empty response has length score 0 and
  vocabulary richness score 0.
\<close>

theorem empty_response_scores:
  "lengthScore (fst (calculateMetrics [] prompt weights st)) = Fin 0
   \<and> vocabularyRichnessScore (fst (calculateMetrics [] prompt weights st)) = Fin 0"
  by (simp add: calculateMetrics_def Let_def calculateLengthScore_def
      calculateVocabularyRichness_def tokenizeWords_empty contentWords_def clamp01_zero)

text \<open>
  C6: when the prompt yields more than 10 requirements, the length-fit scorer works with
  a requirement count of 10 and a target of 700: the score of a response with at least one
  word is the score for the target 700.
\<close>

theorem requirement_count_capped:
  assumes "10 < length (extractRequirements prompt)"
  shows "lengthReqCount prompt = 10 \<and> lengthTarget prompt = Fin 700
         \<and> calculateLengthScore text prompt
             = (if tokenizeWords text = [] then Fin 0 else lengthScoreFor text (Fin 700))"
proof -
  from assms have n: "lengthReqCount prompt = 10"
    by (auto simp: lengthReqCount_def Let_def)
  then have t: "lengthTarget prompt = Fin 700"
    by (simp add: lengthTarget_value)
  show ?thesis
    by (simp add: n t calculateLengthScore_def Let_def)
qed

theorem requirement_count_capped_witness:
  "10 < length (extractRequirements (concat (replicate 20 (js ''- item'' @ [LF]))))
   \<and> length (extractRequirements (concat (replicate 20 (js ''- item'' @ [LF])))) = 20
   \<and> lengthReqCount (concat (replicate 20 (js ''- item'' @ [LF]))) = 10
   \<and> lengthTarget (concat (replicate 20 (js ''- item'' @ [LF]))) = Fin 700
   \<and> calculateLengthScore (js ''word'') (concat (replicate 20 (js ''- item'' @ [LF])))
       = lengthScoreFor (js ''word'') (Fin 700)"
proof -
  have n: "length (extractRequirements (concat (replicate 20 (js ''- item'' @ [LF])))) = 20"
    by code_simp
  then have h: "10 < length (extractRequirements (concat (replicate 20 (js ''- item'' @ [LF]))))"
    by simp
  have w: "tokenizeWords (js ''word'') \<noteq> []" by code_simp
  from requirement_count_capped [OF h, of "js ''word''"] h n w show ?thesis by simp
qed

text \<open>
  C7: a response with fewer than 6 word tokens has repetition score 1, whatever the tokens
  are, and the result carries that value in \<^verbatim>\<open>repetitionPenalty\<close>.
\<close>

theorem short_text_repetition:
  assumes "length (tokenizeWords response) < 6"
  shows "repetitionPenaltyScore response = Fin 1
         \<and> repetitionPenalty (fst (calculateMetrics response prompt weights st)) = Fin 1"
  using assms by (simp add: repetitionPenaltyScore_def calculateMetrics_def Let_def clamp01_one)

theorem short_text_repetition_witness:
  "length (tokenizeWords (js ''the cat the cat the'')) < 6
   \<and> repetitionPenaltyScore (js ''the cat the cat the'') = Fin 1
   \<and> repetitionPenalty (fst (calculateMetrics (js ''the cat the cat the'') (js ''Write a poem'')
        Map.empty loaded)) = Fin 1"
proof -
  have h: "length (tokenizeWords (js ''the cat the cat the'')) < 6" by code_simp
  from short_text_repetition [OF h] h show ?thesis by blast
qed

lemma transCount_from:
  "foldl (\<lambda>acc s. acc + (if hasTransition s then 1 else 0)) n sents
     = n + length (filter hasTransition sents)"
  by (induction sents arbitrary: n) auto

lemma transCount_filter: "transCount sents = length (filter hasTransition sents)"
  by (simp add: transCount_def transCount_from)

lemma hasTransition_member:
  "t \<in> set (tokenizeWords s) \<Longrightarrow> t \<in> set transLex \<Longrightarrow> hasTransition s"
  by (auto simp: hasTransition_def list_ex_iff)

lemma transLex_in: "js ''in'' \<in> set transLex"
  by (simp add: transLex_def js_def)

lemma transLex_conclusion: "js ''conclusion'' \<in> set transLex"
  by (simp add: transLex_def js_def)

text \<open>
  C8: the tokens \<^verbatim>\<open>in\<close> and \<^verbatim>\<open>conclusion\<close> are in the transition lexicon. In a text
  of at least two sentences, a sentence whose tokens contain one of them adds 1 to the
  count of transition sentences, and the coherence score is computed with the transition
  score \<^verbatim>\<open>Math.min(1, transCount / Math.max(1, sents.length - 1))\<close>.
\<close>

theorem in_is_transition_marker:
  assumes "2 \<le> length (sentences text)"
    and "sentences text = before @ s # after"
    and "js ''in'' \<in> set (tokenizeWords s) \<or> js ''conclusion'' \<in> set (tokenizeWords s)"
  shows "js ''in'' \<in> set transLex \<and> js ''conclusion'' \<in> set transLex
         \<and> transCount (sentences text) = transCount before + 1 + transCount after
         \<and> transScore (sentences text)
             = mathMin (Fin 1) (jsDiv (num (transCount (sentences text)))
                 (mathMax (Fin 1) (jsSub (num (length (sentences text))) (Fin 1))))
         \<and> calculateCoherenceScore st text
             = clamp01 (jsSub
                 (clamp01 (jsAdd (jsAdd (jsAdd
                    (jsMul (fl 0.6) (avg (adjacentSims st (sentences text))))
                    (jsMul (fl 0.2) (stability (adjacentSims st (sentences text)))))
                    (jsMul (fl 0.1) (transScore (sentences text))))
                    (structureBonus text (sentences text))))
                 (paraPenalty text))"
proof -
  from assms(3) have "hasTransition s"
    using hasTransition_member transLex_in transLex_conclusion by blast
  then have "transCount (before @ s # after) = transCount before + 1 + transCount after"
    by (simp add: transCount_filter)
  moreover from assms(1) have "calculateCoherenceScore st text
      = clamp01 (jsSub
          (clamp01 (jsAdd (jsAdd (jsAdd
             (jsMul (fl 0.6) (avg (adjacentSims st (sentences text))))
             (jsMul (fl 0.2) (stability (adjacentSims st (sentences text)))))
             (jsMul (fl 0.1) (transScore (sentences text))))
             (structureBonus text (sentences text))))
          (paraPenalty text))"
    by (simp add: calculateCoherenceScore_def Let_def)
  ultimately show ?thesis
    using assms(2) transLex_in transLex_conclusion by (simp add: transScore_def)
qed

theorem in_is_transition_marker_witness:
  "2 \<le> length (sentences (js ''We live in Paris. It rains.''))
   \<and> sentences (js ''We live in Paris. It rains.'') = [] @ js ''We live in Paris.'' # [js ''It rains.'']
   \<and> js ''in'' \<in> set (tokenizeWords (js ''We live in Paris.''))
   \<and> transCount (sentences (js ''We live in Paris. It rains.'')) = transCount [] + 1 + transCount [js ''It rains.'']
   \<and> transCount (sentences (js ''We live in Paris. It rains.'')) = 1
   \<and> transScore (sentences (js ''We live in Paris. It rains.'')) = Fin 1"
proof -
  have s: "sentences (js ''We live in Paris. It rains.'') = [] @ js ''We live in Paris.'' # [js ''It rains.'']"
    by code_simp
  then have l: "2 \<le> length (sentences (js ''We live in Paris. It rains.''))" by simp
  have m: "js ''in'' \<in> set (tokenizeWords (js ''We live in Paris.''))" by code_simp
  have z: "transCount [] = 0" "transCount [js ''It rains.''] = 0" by code_simp+
  have one: "fl 1 = Fin 1" using fl_whole [of 1] by simp
  from in_is_transition_marker [OF l s disjI1 [OF m], of loaded]
  have c: "transCount (sentences (js ''We live in Paris. It rains.'')) = 1"
    and t: "transScore (sentences (js ''We live in Paris. It rains.''))
      = mathMin (Fin 1) (jsDiv (num (transCount (sentences (js ''We live in Paris. It rains.''))))
          (mathMax (Fin 1) (jsSub (num (length (sentences (js ''We live in Paris. It rains.'')))) (Fin 1))))"
    by (simp_all add: z)
  have "transScore (sentences (js ''We live in Paris. It rains.'')) = Fin 1"
    unfolding t c unfolding s by (simp add: num_def jsSub_def one mathMax_def mathMin_def)
  with l s m c z show ?thesis by simp
qed

subsection \<open>The readability of one word\<close>

lemma double_0_39: "fl (39 / 100) = Fin (3512807709348987 / 9007199254740992)"
  by (rule fl_value [where e = "(- 2)" and m = "7025615418697974"]) (simp_all add: pow2_values roundEven_def)

lemma double_11_8: "fl (59 / 5) = Fin (3321404725185741 / 281474976710656)"
  by (rule fl_value [where e = "3" and m = "6642809450371482"]) (simp_all add: pow2_values roundEven_def)

lemma double_15_59: "fl (1559 / 100) = Fin (4388194886919127 / 281474976710656)"
  by (rule fl_value [where e = "3" and m = "8776389773838254"]) (simp_all add: pow2_values roundEven_def)

lemma hello_syllable_term: "fl (3321404725185741 / 140737488355328) = Fin (3321404725185741 / 140737488355328)"
  by (rule fl_value [where e = "4" and m = "6642809450371482"]) (simp_all add: pow2_values roundEven_def)

lemma hello_sum: "fl (216082710121236411 / 9007199254740992) = Fin (3376292345644319 / 140737488355328)"
  by (rule fl_value [where e = "4" and m = "6752584691288638"]) (simp_all add: pow2_values roundEven_def)

lemma hello_less_15_59: "fl (2364389804369511 / 281474976710656) = Fin (2364389804369511 / 281474976710656)"
  by (rule fl_value [where e = "3" and m = "4728779608739022"]) (simp_all add: pow2_values roundEven_def)

lemma double_8_4: "fl (42 / 5) = Fin (4728779608739021 / 562949953421312)"
  by (rule fl_value [where e = "3" and m = "4728779608739021"]) (simp_all add: pow2_values roundEven_def)

lemma hello_distance: "fl (- (450359962737049 / 281474976710656)) = Fin (- (450359962737049 / 281474976710656))"
  by (rule fl_value [where e = "0" and m = "(- 7205759403792784)"]) (simp_all add: pow2_values roundEven_def)

lemma hello_off_target: "fl (450359962737049 / 1688849860263936) = Fin (4803839602528523 / 18014398509481984)"
  by (rule fl_value [where e = "(- 2)" and m = "4803839602528523"]) (simp_all add: pow2_values roundEven_def)

lemma hello_score: "fl (13210558906953461 / 18014398509481984) = Fin (3302639726738365 / 4503599627370496)"
  by (rule fl_value [where e = "(- 1)" and m = "6605279453476730"]) (simp_all add: pow2_values roundEven_def)

lemma hello_counts:
  "length (tokenizeWords (js ''Hello.'')) = 1"
  "length (sentences (js ''Hello.'')) = 1"
  "foldl (\<lambda>acc w. acc + syllableCount w) 0 (tokenizeWords (js ''Hello.'')) = 2"
  by code_simp+

lemma hello_fkGrade: "fkGrade (js ''Hello.'') = Fin (2364389804369511 / 281474976710656)"
proof -
  have one: "fl 1 = Fin 1" and two: "fl 2 = Fin 2"
    using fl_whole [of 1] fl_whole [of 2] by simp_all
  have a: "fl (3512807709348987 / 9007199254740992) = Fin (3512807709348987 / 9007199254740992)"
    using double_0_39 by (rule fl_fixed)
  show ?thesis
    by (simp add: fkGrade_def Let_def hello_counts num_def jsSub_def one two double_0_39 a
        double_11_8 double_15_59 hello_syllable_term hello_sum hello_less_15_59)
qed

lemma hello_score_value: "score (readabilityScore (js ''Hello.'')) = Fin (3302639726738365 / 4503599627370496)"
  by (simp add: readabilityScore_def Let_def hello_fkGrade jsSub_def hello_distance
      hello_off_target hello_score mathMin_def clamp01_def mathMax_def)

text \<open>
  C9, as stated, fails: for the response \<^verbatim>\<open>Hello.\<close> the grade is not the number 8.4, that
  is the double that the literal \<^verbatim>\<open>8.4\<close> denotes, nor the real number 8.4. It is the
  next double above.
\<close>

theorem hello_grade_not_8_4:
  "fkGrade (js ''Hello.'') = Fin (2364389804369511 / 281474976710656)
   \<and> fl 8.4 = Fin (4728779608739021 / 562949953421312)
   \<and> fkGrade (js ''Hello.'') \<noteq> fl 8.4
   \<and> fkGrade (js ''Hello.'') \<noteq> Fin 8.4
   \<and> fkGrade_field (details (fst (calculateMetrics (js ''Hello.'') (js ''Write a poem'')
        Map.empty loaded))) \<noteq> fl 8.4"
proof -
  have g: "fl 8.4 = Fin (4728779608739021 / 562949953421312)" using double_8_4 by simp
  have d: "fkGrade_field (details (fst (calculateMetrics (js ''Hello.'') (js ''Write a poem'')
        Map.empty loaded))) = fkGrade (js ''Hello.'')"
    by (simp add: calculateMetrics_def Let_def readabilityScore_def)
  show ?thesis
    unfolding d g by (simp add: hello_fkGrade)
qed

text \<open>
  C9, amended: for the response \<^verbatim>\<open>Hello.\<close> there are 1 word, 1 sentence and 2 syllables;
  the grade is the sum \<^verbatim>\<open>0.39 + 23.6 - 15.59\<close> as doubles add it up, which is
  8.400000000000002, within \<open>10^-14\<close> of 8.4, and it is returned as it is in the
  diagnostics; the readability score is within 0.01 of 0.733.
\<close>

theorem hello_readability:
  "length (tokenizeWords (js ''Hello.'')) = 1
   \<and> length (sentences (js ''Hello.'')) = 1
   \<and> foldl (\<lambda>acc w. acc + syllableCount w) 0 (tokenizeWords (js ''Hello.'')) = 2
   \<and> fkGrade (js ''Hello.'') = jsSub (jsAdd (fl 0.39) (fl 23.6)) (fl 15.59)
   \<and> fkGrade (js ''Hello.'') = Fin (2364389804369511 / 281474976710656)
   \<and> near 8.4 (1 / 10 ^ 14) (fkGrade (js ''Hello.''))
   \<and> fkGrade_field (details (fst (calculateMetrics (js ''Hello.'') prompt weights st)))
       = fkGrade (js ''Hello.'')
   \<and> near 0.733 0.01 (readabilityScore_field (fst (calculateMetrics (js ''Hello.'') prompt weights st)))"
proof -
  have d: "fkGrade_field (details (fst (calculateMetrics (js ''Hello.'') prompt weights st)))
      = fkGrade (js ''Hello.'')"
    by (simp add: calculateMetrics_def Let_def readabilityScore_def)
  have r: "readabilityScore_field (fst (calculateMetrics (js ''Hello.'') prompt weights st))
      = Fin (3302639726738365 / 4503599627370496)"
    by (simp add: calculateMetrics_def Let_def hello_score_value clamp01_def mathMin_def
        mathMax_def)
  have l: "fl 23.6 = Fin (3321404725185741 / 140737488355328)"
    by (rule fl_value [where e = 4 and m = "6642809450371482"]) (simp_all add: pow2_values roundEven_def)
  have s: "jsSub (jsAdd (fl 0.39) (fl 23.6)) (fl 15.59) = Fin (2364389804369511 / 281474976710656)"
    unfolding l by (simp add: jsSub_def double_0_39 double_15_59 hello_sum hello_less_15_59)
  show ?thesis
    unfolding d r s by (simp add: hello_counts hello_fkGrade)
qed

end
